theory Spec2Isabelle
  imports Main "HOL-Library.Sublist"
begin

section \<open>Python values used by the reporter\<close>

text \<open>
  A Python \<open>str\<close> is a sequence of Unicode code points; it is modelled as the list of
  their numbers, so that characters beyond Latin-1 (the emoji of the console messages, the
  surrogates of the JSON codec) are single elements, as \<open>len\<close> counts them.
  \<open>lit\<close> turns an ASCII literal into such a string.
\<close>

type_synonym pystr = "nat list"

definition lit :: "string \<Rightarrow> pystr" where
  "lit s = map of_char s"

text \<open>The exceptions that the modelled code paths can raise.\<close>

datatype exn =
    FileNotFoundError
  | UnicodeDecodeError
  | JSONDecodeError
  | RecursionError
  | ValueError
  | OverflowError
  | KeyError
  | TypeError
  | AttributeError
  | IndexError
  | RequestException
  | APIError

text \<open>
  A naive \<open>datetime\<close> is a wall-clock time without a time zone; it is the number of
  microseconds (its resolution) from \<open>1970-01-01T00:00:00\<close> to that wall-clock time. A
  \<open>timedelta\<close> is a number of microseconds; subtraction of naive datetimes is subtraction
  of these numbers. A \<open>datetime\<close> holds the years 1 to 9999: in seconds, the wall-clock
  times from \<open>datetime_min_seconds\<close> (\<open>0001-01-01T00:00:00\<close>) to
  \<open>datetime_max_seconds\<close> (\<open>9999-12-31T23:59:59\<close>).
\<close>

type_synonym datetime = int
type_synonym timedelta = int

definition datetime_min_seconds :: int where
  "datetime_min_seconds = - 62135596800"

definition datetime_max_seconds :: int where
  "datetime_max_seconds = 253402300799"

definition timedelta_hours :: "int \<Rightarrow> timedelta" where
  "timedelta_hours h = h * 3600 * 1000000"

definition timedelta_seconds :: "int \<Rightarrow> timedelta" where
  "timedelta_seconds n = n * 1000000"

section \<open>String methods\<close>

text \<open>
  \<open>str.isspace\<close> of one character: the Unicode whitespace that \<open>str.strip()\<close> removes.
\<close>

definition isspace :: "nat \<Rightarrow> bool" where
  "isspace c =
     (c \<in> set [9, 10, 11, 12, 13, 28, 29, 30, 31, 32, 133, 160, 5760, 8232, 8233, 8239, 8287, 12288]
      \<or> (8192 \<le> c \<and> c \<le> 8202))"

definition strip :: "pystr \<Rightarrow> pystr" where
  "strip s = rev (dropWhile isspace (rev (dropWhile isspace s)))"

text \<open>
  \<open>s.split(sep)\<close> and \<open>s.replace(old, new)\<close> for a non-empty \<open>sep\<close>/\<open>old\<close> (the
  source passes the literals \<open>"---"\<close>, \<open>"\n"\<close> and \<open>" "\<close> only): the occurrences are
  found from the left and do not overlap. \<open>sep.join(pieces)\<close> is \<open>str_join\<close>.
\<close>

fun str_split :: "pystr \<Rightarrow> pystr \<Rightarrow> pystr list" where
  "str_split sep [] = [[]]"
| "str_split sep (c # cs) =
     (if prefix sep (c # cs) then [] # str_split sep (drop (length sep - 1) cs)
      else (case str_split sep cs of
              [] \<Rightarrow> [[c]]
            | piece # pieces \<Rightarrow> (c # piece) # pieces))"

fun str_join :: "pystr \<Rightarrow> pystr list \<Rightarrow> pystr" where
  "str_join sep [] = []"
| "str_join sep [x] = x"
| "str_join sep (x # y # ys) = x @ sep @ str_join sep (y # ys)"

fun str_replace :: "pystr \<Rightarrow> pystr \<Rightarrow> pystr \<Rightarrow> pystr" where
  "str_replace old new [] = []"
| "str_replace old new (c # cs) =
     (if prefix old (c # cs) then new @ str_replace old new (drop (length old - 1) cs)
      else c # str_replace old new cs)"

section \<open>The parsed listing page\<close>

text \<open>
  The tree that \<open>BeautifulSoup(response.text, 'html.parser')\<close> builds: a tag has a name,
  the values of its \<open>class\<close> attribute (the only attribute the selectors of the source
  look at) and its children; a \<open>NavigableString\<close> is a piece of text.
\<close>

datatype node =
    Tag (name: pystr) (classes: "pystr list") (children: "node list")
  | NavigableString pystr

text \<open>All nodes below a node, in document order.\<close>

fun descendants :: "node \<Rightarrow> node list" where
  "descendants (Tag n cl ch) = concat (map (\<lambda>c. c # descendants c) ch)"
| "descendants (NavigableString s) = []"

text \<open>
  \<open>tag.select('name.cls')\<close> returns the tags below \<open>tag\<close> called \<open>name\<close> that have
  the class \<open>cls\<close>, in document order; \<open>select_one\<close> returns the first of them or
  \<open>None\<close>.
\<close>

fun matches :: "pystr \<Rightarrow> pystr \<Rightarrow> node \<Rightarrow> bool" where
  "matches nm cls (Tag n cl ch) = (n = nm \<and> cls \<in> set cl)"
| "matches nm cls (NavigableString s) = False"

definition select :: "pystr \<Rightarrow> pystr \<Rightarrow> node \<Rightarrow> node list" where
  "select nm cls root = filter (matches nm cls) (descendants root)"

definition select_one :: "pystr \<Rightarrow> pystr \<Rightarrow> node \<Rightarrow> node option" where
  "select_one nm cls root = (case select nm cls root of [] \<Rightarrow> None | t # _ \<Rightarrow> Some t)"

text \<open>\<open>tag.get_text()\<close> and \<open>tag.text\<close>: the text pieces below the tag, concatenated.\<close>

fun get_text :: "node \<Rightarrow> pystr" where
  "get_text (NavigableString s) = s"
| "get_text (Tag n cl ch) = concat (map get_text ch)"

section \<open>JSON values and the codec of the standard library\<close>

text \<open>
  The values that \<open>json.load\<close> returns and \<open>json.dump\<close> accepts. A dictionary is
  the list of its items in insertion order. A float is kept as the text of its literal.
\<close>

datatype json =
    JNull
  | JBool bool
  | JInt int
  | JFloat pystr
  | JString pystr
  | JArray "json list"
  | JObject "(pystr \<times> json) list"

text \<open>
  \<open>json.dump(obj, f, indent=4)\<close>, with the default \<open>ensure_ascii=True\<close>: every
  character outside the printable ASCII range is written as an escape, a character
  beyond the Basic Multilingual Plane as the escapes of its two surrogates.
\<close>

definition hexdigit :: "nat \<Rightarrow> nat" where
  "hexdigit d = (if d < 10 then 48 + d else 87 + d)"

definition hex4 :: "nat \<Rightarrow> pystr" where
  "hex4 n = [hexdigit (n div 4096 mod 16), hexdigit (n div 256 mod 16),
             hexdigit (n div 16 mod 16), hexdigit (n mod 16)]"

definition escape_u :: "nat \<Rightarrow> pystr" where
  "escape_u n = [92, 117] @ hex4 n"

definition escape_ascii :: "nat \<Rightarrow> pystr" where
  "escape_ascii c =
     (if c = 92 then [92, 92]
      else if c = 34 then [92, 34]
      else if 32 \<le> c \<and> c \<le> 126 then [c]
      else if c = 8 then [92, 98]
      else if c = 12 then [92, 102]
      else if c = 10 then [92, 110]
      else if c = 13 then [92, 114]
      else if c = 9 then [92, 116]
      else if c < 65536 then escape_u c
      else escape_u (55296 + (c - 65536) div 1024 mod 1024) @ escape_u (56320 + (c - 65536) mod 1024))"

definition encode_basestring_ascii :: "pystr \<Rightarrow> pystr" where
  "encode_basestring_ascii s = [34] @ concat (map escape_ascii s) @ [34]"

function digits10 :: "nat \<Rightarrow> pystr" where
  "digits10 n = (if n < 10 then [48 + n] else digits10 (n div 10) @ [48 + n mod 10])"
  by pat_completeness auto
termination by (relation "measure id") auto

definition int_repr :: "int \<Rightarrow> pystr" where
  "int_repr i = (if i < 0 then 45 # digits10 (nat (- i)) else digits10 (nat i))"

definition newline_indent :: "nat \<Rightarrow> pystr" where
  "newline_indent level = 10 # replicate (4 * level) 32"

fun iterencode :: "nat \<Rightarrow> json \<Rightarrow> pystr" where
  "iterencode level JNull = lit ''null''"
| "iterencode level (JBool b) = (if b then lit ''true'' else lit ''false'')"
| "iterencode level (JInt i) = int_repr i"
| "iterencode level (JFloat f) = f"
| "iterencode level (JString s) = encode_basestring_ascii s"
| "iterencode level (JArray vs) =
     (if vs = [] then lit ''[]''
      else [91] @ newline_indent (Suc level)
           @ str_join (44 # newline_indent (Suc level)) (map (iterencode (Suc level)) vs)
           @ newline_indent level @ [93])"
| "iterencode level (JObject kvs) =
     (if kvs = [] then lit ''{}''
      else [123] @ newline_indent (Suc level)
           @ str_join (44 # newline_indent (Suc level))
               (map (\<lambda>kv. encode_basestring_ascii (fst kv) @ [58, 32] @ iterencode (Suc level) (snd kv)) kvs)
           @ newline_indent level @ [125])"

text \<open>
  \<open>json.load\<close>. The scanner reads the text from the left and returns the value
  together with the text that follows it. \<open>scan_escape\<close> decodes what follows a
  backslash and returns the character and the number of characters read; the escape of
  a high surrogate that is followed by the escape of a low surrogate is read as one
  character.
\<close>

definition hexval :: "nat \<Rightarrow> nat option" where
  "hexval c =
     (if 48 \<le> c \<and> c \<le> 57 then Some (c - 48)
      else if 97 \<le> c \<and> c \<le> 102 then Some (c - 87)
      else if 65 \<le> c \<and> c \<le> 70 then Some (c - 55)
      else None)"

definition decode_uXXXX :: "pystr \<Rightarrow> nat option" where
  "decode_uXXXX s =
     (case s of
        a # b # c # d # _ \<Rightarrow>
          (case (hexval a, hexval b, hexval c, hexval d) of
             (Some x3, Some x2, Some x1, Some x0) \<Rightarrow> Some (x3 * 4096 + x2 * 256 + x1 * 16 + x0)
           | _ \<Rightarrow> None)
      | _ \<Rightarrow> None)"

definition backslash :: "nat \<Rightarrow> nat option" where
  "backslash c =
     (if c = 34 then Some 34
      else if c = 92 then Some 92
      else if c = 47 then Some 47
      else if c = 98 then Some 8
      else if c = 102 then Some 12
      else if c = 110 then Some 10
      else if c = 114 then Some 13
      else if c = 116 then Some 9
      else None)"

definition append_char :: "nat \<Rightarrow> (pystr \<times> pystr) option \<Rightarrow> (pystr \<times> pystr) option" where
  "append_char c r = (case r of None \<Rightarrow> None | Some (chunks, rest) \<Rightarrow> Some (c # chunks, rest))"

definition scan_escape :: "pystr \<Rightarrow> (nat \<times> nat) option" where
  "scan_escape s =
     (case s of
        [] \<Rightarrow> None
      | esc # rest \<Rightarrow>
          if esc \<noteq> 117 then
            (case backslash esc of
               None \<Rightarrow> None
             | Some ch \<Rightarrow> Some (ch, 1))
          else
            (case decode_uXXXX rest of
               None \<Rightarrow> None
             | Some uni \<Rightarrow>
                 if 55296 \<le> uni \<and> uni \<le> 56319 \<and> take 2 (drop 4 rest) = [92, 117] then
                   (case decode_uXXXX (drop 6 rest) of
                      None \<Rightarrow> None
                    | Some uni2 \<Rightarrow>
                        if 56320 \<le> uni2 \<and> uni2 \<le> 57343
                        then Some (65536 + ((uni - 55296) * 1024 + (uni2 - 56320)), 11)
                        else Some (uni, 5))
                 else Some (uni, 5)))"

function scanstring :: "pystr \<Rightarrow> (pystr \<times> pystr) option" where
  "scanstring [] = None"
| "scanstring (c # cs) =
     (if c = 34 then Some ([], cs)
      else if c = 92 then
        (case scan_escape cs of
           None \<Rightarrow> None
         | Some (ch, n) \<Rightarrow> append_char ch (scanstring (drop n cs)))
      else if c < 32 then None
      else append_char c (scanstring cs))"
  by pat_completeness auto
termination
  by (relation "measure length") auto

text \<open>
  Whitespace between the tokens is skipped. A number follows the pattern
  \<^verbatim>\<open>(-?(?:0|[1-9][0-9]*))(\.[0-9]+)?([eE][-+]?[0-9]+)?\<close>; the other constants are
  \<open>null\<close>, \<open>true\<close>, \<open>false\<close>, \<open>NaN\<close>, \<open>Infinity\<close> and \<open>-Infinity\<close>.
\<close>

definition is_ws :: "nat \<Rightarrow> bool" where
  "is_ws c = (c = 32 \<or> c = 9 \<or> c = 10 \<or> c = 13)"

definition skip_ws :: "pystr \<Rightarrow> pystr" where
  "skip_ws s = dropWhile is_ws s"

definition is_digit :: "nat \<Rightarrow> bool" where
  "is_digit c = (48 \<le> c \<and> c \<le> 57)"

definition match_integer :: "pystr \<Rightarrow> (pystr \<times> pystr) option" where
  "match_integer s =
     (let sign = (if take 1 s = [45] then [45] else []);
          r = drop (length sign) s
      in case r of
           [] \<Rightarrow> None
         | d # r' \<Rightarrow>
             if d = 48 then Some (sign @ [48], r')
             else if 49 \<le> d \<and> d \<le> 57
               then Some (sign @ d # takeWhile is_digit r', dropWhile is_digit r')
             else None)"

definition match_frac :: "pystr \<Rightarrow> pystr \<times> pystr" where
  "match_frac s =
     (case s of
        [] \<Rightarrow> ([], s)
      | c # r \<Rightarrow>
          if c = 46 \<and> takeWhile is_digit r \<noteq> []
          then (46 # takeWhile is_digit r, dropWhile is_digit r)
          else ([], s))"

definition match_exp :: "pystr \<Rightarrow> pystr \<times> pystr" where
  "match_exp s =
     (case s of
        [] \<Rightarrow> ([], s)
      | c # r \<Rightarrow>
          if c = 101 \<or> c = 69 then
            (let sign = (if take 1 r = [45] \<or> take 1 r = [43] then take 1 r else []);
                 r' = drop (length sign) r
             in if takeWhile is_digit r' \<noteq> []
                then (c # sign @ takeWhile is_digit r', dropWhile is_digit r')
                else ([], s))
          else ([], s))"

definition nat_of_digits :: "pystr \<Rightarrow> nat" where
  "nat_of_digits ds = foldl (\<lambda>n d. 10 * n + (d - 48)) 0 ds"

text \<open>
  \<open>int(integer)\<close> on the text of an integer literal. The interpreter refuses to convert
  a text of more than 4300 digits, the sign not counted (the default of
  \<open>sys.set_int_max_str_digits\<close>, which the program does not change), and raises
  \<open>ValueError\<close>.
\<close>

definition int_max_str_digits :: nat where
  "int_max_str_digits = 4300"

definition parse_int :: "pystr \<Rightarrow> exn + int" where
  "parse_int s =
     (let digits = (if take 1 s = [45] then drop 1 s else s)
      in if int_max_str_digits < length digits then Inl ValueError
         else if take 1 s = [45] then Inr (- int (nat_of_digits digits))
         else Inr (int (nat_of_digits digits)))"

text \<open>
  A number literal: the text matched, converted by \<open>float\<close> when it has a fraction or
  an exponent (this conversion accepts every such text) and by \<open>int\<close> otherwise. The
  result is the value or the exception of the conversion, and the text that follows.
\<close>

definition match_number :: "pystr \<Rightarrow> ((exn + json) \<times> pystr) option" where
  "match_number s =
     (case match_integer s of
        None \<Rightarrow> None
      | Some (integer, r1) \<Rightarrow>
          (let (frac, r2) = match_frac r1;
               (exp, r3) = match_exp r2
           in if frac \<noteq> [] \<or> exp \<noteq> [] then Some (Inr (JFloat (integer @ frac @ exp)), r3)
              else (case parse_int integer of
                      Inl err \<Rightarrow> Some (Inl err, r3)
                    | Inr i \<Rightarrow> Some (Inr (JInt i), r3))))"

text \<open>
  \<open>scan_once\<close> reads one value; \<open>JSONObject_loop\<close> and \<open>JSONArray_loop\<close> are the
  \<open>while True\<close> loops over the members of an object and the elements of an array.
  The first argument is the nesting depth still allowed, after which the interpreter raises
  \<open>RecursionError\<close>; an exception of a conversion ends the scan. The second argument of a loop bounds its iterations: the loop is
  entered with the length of the remaining text, and every iteration reads at least one
  character. \<open>dict_of_pairs\<close> is \<open>dict(pairs)\<close>: a repeated key keeps its first
  position and takes the last value.
\<close>

fun dict_of_pairs :: "(pystr \<times> json) list \<Rightarrow> (pystr \<times> json) list \<Rightarrow> (pystr \<times> json) list" where
  "dict_of_pairs d [] = d"
| "dict_of_pairs d ((k, v) # pairs) =
     dict_of_pairs (if k \<in> fst ` set d then map (\<lambda>(k', v'). if k' = k then (k', v) else (k', v')) d
                    else d @ [(k, v)]) pairs"

definition scan_constant :: "pystr \<Rightarrow> exn + json \<times> pystr" where
  "scan_constant s =
     (if prefix (lit ''null'') s then Inr (JNull, drop 4 s)
      else if prefix (lit ''true'') s then Inr (JBool True, drop 4 s)
      else if prefix (lit ''false'') s then Inr (JBool False, drop 5 s)
      else
        (case match_number s of
           Some (Inr number, rest) \<Rightarrow> Inr (number, rest)
         | Some (Inl err, rest) \<Rightarrow> Inl err
         | None \<Rightarrow>
             if prefix (lit ''NaN'') s then Inr (JFloat (lit ''NaN''), drop 3 s)
             else if prefix (lit ''Infinity'') s then Inr (JFloat (lit ''Infinity''), drop 8 s)
             else if prefix (lit ''-Infinity'') s then Inr (JFloat (lit ''-Infinity''), drop 9 s)
             else Inl JSONDecodeError))"

function scan_once :: "nat \<Rightarrow> pystr \<Rightarrow> exn + json \<times> pystr"
and JSONObject_loop :: "nat \<Rightarrow> nat \<Rightarrow> pystr \<Rightarrow> exn + (pystr \<times> json) list \<times> pystr"
and JSONArray_loop :: "nat \<Rightarrow> nat \<Rightarrow> pystr \<Rightarrow> exn + json list \<times> pystr"
where
  "scan_once depth [] = Inl JSONDecodeError"
| "scan_once depth (nextchar # cs) =
     (if nextchar = 34 then
        (case scanstring cs of
           None \<Rightarrow> Inl JSONDecodeError
         | Some (str, rest) \<Rightarrow> Inr (JString str, rest))
      else if nextchar = 123 then
        (case depth of
           0 \<Rightarrow> Inl RecursionError
         | Suc depth' \<Rightarrow>
             (case skip_ws cs of
                [] \<Rightarrow> Inl JSONDecodeError
              | c # rest \<Rightarrow>
                  if c = 125 then Inr (JObject [], rest)
                  else (case JSONObject_loop depth' (length cs) (skip_ws cs) of
                          Inl err \<Rightarrow> Inl err
                        | Inr (pairs, rest') \<Rightarrow> Inr (JObject (dict_of_pairs [] pairs), rest'))))
      else if nextchar = 91 then
        (case depth of
           0 \<Rightarrow> Inl RecursionError
         | Suc depth' \<Rightarrow>
             (case skip_ws cs of
                [] \<Rightarrow> Inl JSONDecodeError
              | c # rest \<Rightarrow>
                  if c = 93 then Inr (JArray [], rest)
                  else (case JSONArray_loop depth' (length cs) (skip_ws cs) of
                          Inl err \<Rightarrow> Inl err
                        | Inr (values, rest') \<Rightarrow> Inr (JArray values, rest'))))
      else scan_constant (nextchar # cs))"
| "JSONObject_loop depth 0 s = Inl JSONDecodeError"
| "JSONObject_loop depth (Suc n) s =
     (case s of
        [] \<Rightarrow> Inl JSONDecodeError
      | q # s1 \<Rightarrow>
          if q \<noteq> 34 then Inl JSONDecodeError
          else
            (case scanstring s1 of
               None \<Rightarrow> Inl JSONDecodeError
             | Some (key, s2) \<Rightarrow>
                 (case skip_ws s2 of
                    [] \<Rightarrow> Inl JSONDecodeError
                  | colon # s3 \<Rightarrow>
                      if colon \<noteq> 58 then Inl JSONDecodeError
                      else
                        (case scan_once depth (skip_ws s3) of
                           Inl err \<Rightarrow> Inl err
                         | Inr (v, s4) \<Rightarrow>
                             (case skip_ws s4 of
                                [] \<Rightarrow> Inl JSONDecodeError
                              | nextchar # s5 \<Rightarrow>
                                  if nextchar = 125 then Inr ([(key, v)], s5)
                                  else if nextchar \<noteq> 44 then Inl JSONDecodeError
                                  else
                                    (case JSONObject_loop depth n (skip_ws s5) of
                                       Inl err \<Rightarrow> Inl err
                                     | Inr (pairs, rest) \<Rightarrow> Inr ((key, v) # pairs, rest)))))))"
| "JSONArray_loop depth 0 s = Inl JSONDecodeError"
| "JSONArray_loop depth (Suc n) s =
     (case scan_once depth s of
        Inl err \<Rightarrow> Inl err
      | Inr (v, s1) \<Rightarrow>
          (case skip_ws s1 of
             [] \<Rightarrow> Inl JSONDecodeError
           | nextchar # s2 \<Rightarrow>
               if nextchar = 93 then Inr ([v], s2)
               else if nextchar \<noteq> 44 then Inl JSONDecodeError
               else
                 (case JSONArray_loop depth n (skip_ws s2) of
                    Inl err \<Rightarrow> Inl err
                  | Inr (values, rest) \<Rightarrow> Inr (v # values, rest))))"
  by pat_completeness auto
termination
  by (relation "inv_image (less_than <*lex*> less_than)
        (\<lambda>x. case x of
               Inl (depth, s) \<Rightarrow> (2 * depth + 1, 0)
             | Inr (Inl (depth, n, s)) \<Rightarrow> (2 * depth + 2, n)
             | Inr (Inr (depth, n, s)) \<Rightarrow> (2 * depth + 2, n))") auto

text \<open>
  \<open>json.loads\<close>: a text that starts with a byte order mark is refused, whitespace around
  the value is skipped, and anything else after the value is an error. \<open>depth\<close> is the
  number of nested objects and arrays that the interpreter lets the scanner enter before it
  raises \<open>RecursionError\<close>.
\<close>

definition json_loads :: "nat \<Rightarrow> pystr \<Rightarrow> exn + json" where
  "json_loads depth s =
     (if take 1 s = [65279] then Inl JSONDecodeError
      else case scan_once depth (skip_ws s) of
             Inl err \<Rightarrow> Inl err
           | Inr (obj, rest) \<Rightarrow> if skip_ws rest = [] then Inr obj else Inl JSONDecodeError)"

text \<open>
  Strings that the codec restores: every element is a code point, and no high surrogate
  is directly followed by a low surrogate (two such characters are written as two escapes,
  which the scanner reads back as one character).
\<close>

definition is_high_surrogate :: "nat \<Rightarrow> bool" where
  "is_high_surrogate c = (55296 \<le> c \<and> c \<le> 56319)"

definition is_low_surrogate :: "nat \<Rightarrow> bool" where
  "is_low_surrogate c = (56320 \<le> c \<and> c \<le> 57343)"

fun no_surrogate_pair :: "pystr \<Rightarrow> bool" where
  "no_surrogate_pair (a # b # cs) =
     (\<not> (is_high_surrogate a \<and> is_low_surrogate b) \<and> no_surrogate_pair (b # cs))"
| "no_surrogate_pair cs = True"

definition code_points :: "pystr \<Rightarrow> bool" where
  "code_points s = (\<forall>c\<in>set s. c < 1114112)"

section \<open>Reading a text file\<close>

text \<open>
  \<open>open(path, 'r', encoding='utf-8')\<close> followed by \<open>read()\<close>. The bytes of the
  file (numbers below 256) are decoded by the strict UTF-8 decoder, which raises
  \<open>UnicodeDecodeError\<close> (the result \<open>None\<close>) at a byte sequence that is not the
  shortest encoding of a code point other than a surrogate, up to U+10FFFF. Then the
  universal newlines of text mode apply: \<open>"\r\n"\<close> and \<open>"\r"\<close> are read as
  \<open>"\n"\<close>.
\<close>

type_synonym bytes = "nat list"

definition is_continuation :: "nat \<Rightarrow> bool" where
  "is_continuation b = (128 \<le> b \<and> b \<le> 191)"

function utf8_decode :: "bytes \<Rightarrow> pystr option" where
  "utf8_decode [] = Some []"
| "utf8_decode (b # bs) =
     (if b < 128 then map_option (Cons b) (utf8_decode bs)
      else if 194 \<le> b \<and> b \<le> 223 then
        (case bs of
           b1 # rest \<Rightarrow>
             if is_continuation b1
             then map_option (Cons ((b - 192) * 64 + (b1 - 128))) (utf8_decode rest)
             else None
         | _ \<Rightarrow> None)
      else if 224 \<le> b \<and> b \<le> 239 then
        (case bs of
           b1 # b2 # rest \<Rightarrow>
             if (if b = 224 then 160 else 128) \<le> b1 \<and> b1 \<le> (if b = 237 then 159 else 191)
                \<and> is_continuation b2
             then map_option (Cons ((b - 224) * 4096 + (b1 - 128) * 64 + (b2 - 128)))
                    (utf8_decode rest)
             else None
         | _ \<Rightarrow> None)
      else if 240 \<le> b \<and> b \<le> 244 then
        (case bs of
           b1 # b2 # b3 # rest \<Rightarrow>
             if (if b = 240 then 144 else 128) \<le> b1 \<and> b1 \<le> (if b = 244 then 143 else 191)
                \<and> is_continuation b2 \<and> is_continuation b3
             then map_option
                    (Cons ((b - 240) * 262144 + (b1 - 128) * 4096 + (b2 - 128) * 64 + (b3 - 128)))
                    (utf8_decode rest)
             else None
         | _ \<Rightarrow> None)
      else None)"
  by pat_completeness auto
termination
  by (relation "measure length") auto

function universal_newlines :: "pystr \<Rightarrow> pystr" where
  "universal_newlines [] = []"
| "universal_newlines (c # cs) =
     (if c = 13 then 10 # universal_newlines (if take 1 cs = [10] then drop 1 cs else cs)
      else c # universal_newlines cs)"
  by pat_completeness auto
termination
  by (relation "measure length") auto

definition read_text :: "bytes \<Rightarrow> exn + pystr" where
  "read_text bs =
     (case utf8_decode bs of
        None \<Rightarrow> Inl UnicodeDecodeError
      | Some decoded \<Rightarrow> Inr (universal_newlines decoded))"

section \<open>The environment and the state of a run\<close>

record response =
  status_code :: nat
  response_text :: pystr

text \<open>
  What the run does not compute itself. \<open>requests_get k url\<close> is the outcome of the
  \<open>requests.get(url, headers=headers)\<close> made after \<open>k\<close> earlier requests: a response,
  or the exception of a network failure. \<open>chat_completion k prompt\<close> is the outcome of
  \<open>groq_client.chat.completions.create(...).choices[0].message.content\<close> for the user
  prompt, after \<open>k\<close> earlier calls. \<open>strftime_ymd\<close> and \<open>isoformat\<close> are the two
  formats of a datetime that the source prints.

  \<open>clock k\<close> is the system time at the reading after \<open>k\<close> earlier ones: the POSIX
  timestamp that \<open>time.time()\<close> returns, in microseconds. The local time zone is what
  the C function \<open>localtime()\<close> of the platform does with a timestamp in seconds:
  \<open>localtime_fails t\<close> tells whether it refuses \<open>t\<close> (timestamps far outside the
  years that a \<open>datetime\<close> holds; the interpreter then raises \<open>OverflowError\<close>, on
  some platforms \<open>OSError\<close>), \<open>utcoffset t\<close> is the number of seconds by which the
  wall-clock time that it returns is ahead of UTC at \<open>t\<close>. The offset changes with
  \<open>t\<close> where the zone has daylight saving time.

  \<open>deeper_levels\<close> is the number of nested objects and arrays, below the outermost one,
  that the interpreter lets the JSON scanner enter before it raises
  \<open>RecursionError\<close>. The number depends on the interpreter (its recursion limit, the
  frames in use, the size of its stack).
\<close>

record env =
  requests_get :: "nat \<Rightarrow> pystr \<Rightarrow> exn + response"
  html_parser :: "pystr \<Rightarrow> node"
  chat_completion :: "nat \<Rightarrow> pystr \<Rightarrow> exn + pystr"
  clock :: "nat \<Rightarrow> int"
  utcoffset :: "int \<Rightarrow> int"
  localtime_fails :: "int \<Rightarrow> bool"
  strftime_ymd :: "datetime \<Rightarrow> pystr"
  isoformat :: "datetime \<Rightarrow> pystr"
  deeper_levels :: nat

text \<open>A repository record: the dictionary that the fetch builds for one listing entry.\<close>

record repo =
  full_name :: pystr
  description :: pystr
  html_url :: pystr
  stargazers_count :: pystr

text \<open>What \<open>rich\<close> is asked to print.\<close>

datatype renderable =
    Str pystr
  | Text pystr pystr
  | Markdown pystr
  | Panel renderable "renderable option" pystr

datatype printed =
    ConsolePrint renderable "pystr option"
  | BuiltinPrint "repo list"

text \<open>
  The working directory maps a path to what is stored there. \<open>content\<close> is the bytes
  of the file; \<open>mtime\<close> is its time of last modification, the POSIX timestamp that
  \<open>os.path.getmtime(path)\<close> returns, in microseconds (the resolution to which
  \<open>datetime.fromtimestamp\<close> rounds it).
\<close>

record file_entry =
  content :: bytes
  mtime :: int

type_synonym filesystem = "pystr \<rightharpoonup> file_entry"

text \<open>
  The state that a run changes: the working directory, what was printed, the URLs
  requested, the prompts sent to the text-generation service, and the number of clock
  readings made.
\<close>

record state =
  files :: filesystem
  console :: "printed list"
  requests :: "pystr list"
  prompts :: "pystr list"
  clock_reads :: nat

text \<open>
  The naive local time of a timestamp in microseconds: the wall-clock time that
  \<open>localtime()\<close> gives for its whole seconds, with its microseconds.
\<close>

definition local_time :: "env \<Rightarrow> int \<Rightarrow> datetime" where
  "local_time e t = t + utcoffset e (t div 1000000) * 1000000"

text \<open>
  \<open>local_seconds\<close> is the conversion of a timestamp in seconds to the seconds of its
  wall-clock time, with the two ways in which the interpreter refuses it: the platform
  cannot convert the timestamp, or the year of the wall-clock time is not one of 1 to 9999
  (\<open>ValueError\<close>).

  \<open>datetime.fromtimestamp(t)\<close> without a time zone converts the whole seconds of
  \<open>t\<close>. To tell the two readings of a wall-clock time that is repeated when the clocks
  are set back, it also converts the timestamp 24 hours earlier and, where the offset has
  decreased since then, the timestamp earlier by that decrease (the interpreter does so on
  every platform but Windows); each of the conversions can raise. The result is the
  wall-clock time of \<open>t\<close>.
\<close>

definition local_seconds :: "env \<Rightarrow> int \<Rightarrow> exn + int" where
  "local_seconds e u =
     (if localtime_fails e u then Inl OverflowError
      else if u + utcoffset e u < datetime_min_seconds \<or> datetime_max_seconds < u + utcoffset e u
        then Inl ValueError
      else Inr (u + utcoffset e u))"

definition max_fold_seconds :: int where
  "max_fold_seconds = 24 * 3600"

definition fromtimestamp :: "env \<Rightarrow> int \<Rightarrow> exn + datetime" where
  "fromtimestamp e t =
     (let timet = t div 1000000;
          us = t mod 1000000
      in case local_seconds e timet of
           Inl err \<Rightarrow> Inl err
         | Inr result_seconds \<Rightarrow>
             (case local_seconds e (timet - max_fold_seconds) of
                Inl err \<Rightarrow> Inl err
              | Inr probe_seconds \<Rightarrow>
                  (let transition = result_seconds - probe_seconds - max_fold_seconds
                   in if transition < 0
                      then (case local_seconds e (timet + transition) of
                              Inl err \<Rightarrow> Inl err
                            | Inr probe2 \<Rightarrow> Inr (result_seconds * 1000000 + us))
                      else Inr (result_seconds * 1000000 + us))))"

text \<open>
  \<open>datetime.now()\<close> is the local time of a reading of the system clock. The system
  clock is taken to show a time that the interpreter can convert, so that the call returns.
\<close>

definition datetime_now :: "env \<Rightarrow> state \<Rightarrow> datetime \<times> state" where
  "datetime_now e s =
     (local_time e (clock e (clock_reads s)), s\<lparr>clock_reads := Suc (clock_reads s)\<rparr>)"

definition console_print :: "renderable \<Rightarrow> pystr option \<Rightarrow> state \<Rightarrow> state" where
  "console_print r style s = s\<lparr>console := console s @ [ConsolePrint r style]\<rparr>"

section \<open>The cache file\<close>

definition cache_file :: pystr where
  "cache_file = lit ''github_trending_cache.json''"

text \<open>
  \<^verbatim>\<open>
  def should_refresh_cache(self) -> bool:
      if not os.path.exists(self.cache_file):
          return True
      file_timestamp = datetime.fromtimestamp(os.path.getmtime(self.cache_file))
      current_time = datetime.now()
      return (current_time - file_timestamp) > timedelta(hours=24)
  \<close>
\<close>

definition should_refresh_cache :: "env \<Rightarrow> state \<Rightarrow> (exn + bool) \<times> state" where
  "should_refresh_cache e s =
     (case files s cache_file of
        None \<Rightarrow> (Inr True, s)
      | Some f \<Rightarrow>
          (case fromtimestamp e (mtime f) of
             Inl err \<Rightarrow> (Inl err, s)
           | Inr file_timestamp \<Rightarrow>
               (let (current_time, s') = datetime_now e s
                in (Inr (current_time - file_timestamp > timedelta_hours 24), s'))))"

text \<open>
  \<^verbatim>\<open>
  def load_cached_report(self) -> dict:
      with open(self.cache_file, 'r', encoding='utf-8') as f:
          return json.load(f)
  \<close>
\<close>

text \<open>
  \<open>json.load(f)\<close> is \<open>json.loads(f.read())\<close>: the whole file is read and decoded
  before the scanner starts.
\<close>

definition load_cached_report :: "env \<Rightarrow> state \<Rightarrow> exn + json" where
  "load_cached_report e s =
     (case files s cache_file of
        None \<Rightarrow> Inl FileNotFoundError
      | Some f \<Rightarrow>
          (case read_text (content f) of
             Inl err \<Rightarrow> Inl err
           | Inr doc \<Rightarrow> json_loads (Suc (deeper_levels e)) doc))"

text \<open>
  \<^verbatim>\<open>
  def save_cache(self, report_data: dict):
      with open(self.cache_file, 'w', encoding='utf-8') as f:
          json.dump(report_data, f, indent=4)
  \<close>
  The file is replaced by the new text and stamped with a reading of the clock.
  \<open>json.dump\<close> with its default \<open>ensure_ascii=True\<close> writes ASCII characters only,
  and the UTF-8 encoding of an ASCII character is the byte with its number, so the bytes
  written are the numbers of the characters; a line ends with \<open>"\n"\<close>, as
  \<open>os.linesep\<close> is on a POSIX system.
\<close>

definition save_cache :: "env \<Rightarrow> json \<Rightarrow> state \<Rightarrow> state" where
  "save_cache e report_data s =
     s\<lparr>files := (files s)(cache_file \<mapsto>
                      \<lparr>content = iterencode 0 report_data, mtime = clock e (clock_reads s)\<rparr>),
       clock_reads := Suc (clock_reads s)\<rparr>"

section \<open>Fetching the trending repositories\<close>

text \<open>
  The body of the loop over the articles:
  \<^verbatim>\<open>
  title_element = article.select_one('h2.h3')
  full_name = title_element.get_text().strip().replace('\n', '').replace(' ', '')
  description_element = article.select_one('p.col-9')
  description = description_element.text.strip() if description_element else ''
  stars_element = article.select('a.Link--muted')[1]
  stars = stars_element.text.strip()
  repo = {'full_name': full_name, 'description': description,
          'html_url': f"https://github.com/{full_name}", 'stargazers_count': stars}
  \<close>
  \<open>get_text\<close> on the \<open>None\<close> of a missing title raises \<open>AttributeError\<close>, the index
  \<open>[1]\<close> into fewer than two links raises \<open>IndexError\<close>.
\<close>

definition article_repo :: "node \<Rightarrow> exn + repo" where
  "article_repo article =
     (case select_one (lit ''h2'') (lit ''h3'') article of
        None \<Rightarrow> Inl AttributeError
      | Some title_element \<Rightarrow>
          (let full_name = str_replace (lit '' '') []
                             (str_replace [10] [] (strip (get_text title_element)));
               description = (case select_one (lit ''p'') (lit ''col-9'') article of
                                None \<Rightarrow> []
                              | Some description_element \<Rightarrow> strip (get_text description_element))
           in case select (lit ''a'') (lit ''Link--muted'') article of
                _ # stars_element # _ \<Rightarrow>
                  Inr \<lparr>full_name = full_name,
                       description = description,
                       html_url = lit ''https://github.com/'' @ full_name,
                       stargazers_count = strip (get_text stars_element)\<rparr>
              | _ \<Rightarrow> Inl IndexError))"

text \<open>The loop \<open>for article in articles: ... trending_repos.append(repo)\<close>.\<close>

fun collect_repos :: "node list \<Rightarrow> repo list \<Rightarrow> exn + repo list" where
  "collect_repos [] trending_repos = Inr trending_repos"
| "collect_repos (article # articles) trending_repos =
     (case article_repo article of
        Inl e \<Rightarrow> Inl e
      | Inr r \<Rightarrow> collect_repos articles (trending_repos @ [r]))"

text \<open>
  \<^verbatim>\<open>
  def fetch_trending_repos(self, language: str = None) -> List[Dict]:
      url = f"https://github.com/trending/{language if language else ''}"
      headers = {'User-Agent': ...}
      response = requests.get(url, headers=headers)
      soup = BeautifulSoup(response.text, 'html.parser')
      trending_repos = []
      articles = soup.select('article.Box-row')
      for article in articles: ...
      return trending_repos[:10]
  \<close>
  The status code of the response is not read.
\<close>

definition trending_url :: "pystr option \<Rightarrow> pystr" where
  "trending_url language =
     lit ''https://github.com/trending/'' @ (case language of None \<Rightarrow> [] | Some l \<Rightarrow> l)"

definition fetch_trending_repos :: "env \<Rightarrow> pystr option \<Rightarrow> state \<Rightarrow> (exn + repo list) \<times> state" where
  "fetch_trending_repos e language s =
     (let url = trending_url language;
          s' = s\<lparr>requests := requests s @ [url]\<rparr>
      in case requests_get e (length (requests s)) url of
           Inl err \<Rightarrow> (Inl err, s')
         | Inr response \<Rightarrow>
             (let soup = html_parser e (response_text response);
                  articles = select (lit ''article'') (lit ''Box-row'') soup
              in case collect_repos articles [] of
                   Inl err \<Rightarrow> (Inl err, s')
                 | Inr trending_repos \<Rightarrow> (Inr (take 10 trending_repos), s')))"

text \<open>
  The result of a fetch depends on the state only through the number of earlier requests:
  \<open>fetch_outcome e language k\<close> is what the fetch made after \<open>k\<close> requests returns.
\<close>

definition fetch_outcome :: "env \<Rightarrow> pystr option \<Rightarrow> nat \<Rightarrow> exn + repo list" where
  "fetch_outcome e language k =
     (case requests_get e k (trending_url language) of
        Inl err \<Rightarrow> Inl err
      | Inr response \<Rightarrow>
          (case collect_repos (select (lit ''article'') (lit ''Box-row'')
                  (html_parser e (response_text response))) [] of
             Inl err \<Rightarrow> Inl err
           | Inr trending_repos \<Rightarrow> Inr (take 10 trending_repos)))"

text \<open>
  An entry from which the loop can build a record: it has a title element and at least
  two muted links.
\<close>

definition has_title_and_links :: "node \<Rightarrow> bool" where
  "has_title_and_links a =
     (select_one (lit ''h2'') (lit ''h3'') a \<noteq> None \<and> 2 \<le> length (select (lit ''a'') (lit ''Link--muted'') a))"

section \<open>Summarizing\<close>

text \<open>
  \<^verbatim>\<open>
  repo_details = "\n\n".join([
      f"Repository: {repo['full_name']}\n"
      f"Description: {repo.get('description', 'No description')}\n"
      f"Stars: {repo['stargazers_count']}\n"
      f"URL: {repo['html_url']}"
      for repo in repos])
  prompt = f"""Provide a professional summary of the following trending GitHub repositories.
          Highlight their purpose, key features, and potential use cases:

          {repo_details}
          """
  \<close>
  Every record of the fetch has a description, so the default of \<open>get\<close> is never used.
\<close>

definition repo_details_block :: "repo \<Rightarrow> pystr" where
  "repo_details_block r =
     lit ''Repository: '' @ full_name r @ [10]
     @ lit ''Description: '' @ description r @ [10]
     @ lit ''Stars: '' @ stargazers_count r @ [10]
     @ lit ''URL: '' @ html_url r"

definition summary_prompt :: "repo list \<Rightarrow> pystr" where
  "summary_prompt repos =
     (let repo_details = str_join [10, 10] (map repo_details_block repos)
      in lit ''Provide a professional summary of the following trending GitHub repositories.'' @ [10]
         @ lit ''        Highlight their purpose, key features, and potential use cases:'' @ [10, 10]
         @ lit ''        '' @ repo_details @ [10]
         @ lit ''        '')"

definition generate_repo_summary :: "env \<Rightarrow> repo list \<Rightarrow> state \<Rightarrow> (exn + pystr) \<times> state" where
  "generate_repo_summary e repos s =
     (let prompt = summary_prompt repos
      in (chat_completion e (length (prompts s)) prompt, s\<lparr>prompts := prompts s @ [prompt]\<rparr>))"

section \<open>Rendering\<close>

text \<open>
  The banner and the date line that \<open>display_report\<close> prints before it looks at the
  report.
\<close>

definition print_banner :: "env \<Rightarrow> state \<Rightarrow> state" where
  "print_banner e s =
     (let s1 = console_print (Str [10]) None s;
          title = Text (128640 # lit '' GitHub Trending Repositories Report'') (lit ''bold magenta'');
          s2 = console_print (Panel title None (lit ''bright_blue'')) None s1;
          (today, s3) = datetime_now e s2;
          date_text = Text (lit ''Generated on: '' @ strftime_ymd e today) (lit ''italic cyan'');
          s4 = console_print date_text None s3
      in console_print (Str [10]) None s4)"

text \<open>
  The body of the loop over the sections:
  \<^verbatim>\<open>
  if section.strip():
      lines = section.strip().split('\n')
      section_title = Text(lines[0], style="bold yellow")
      section_content = '\n'.join(lines[1:])
      markdown = Markdown(section_content)
      self.console.print(Panel(markdown, title=section_title, border_style="green"))
      self.console.print("\n")
  \<close>
  \<open>split\<close> returns at least one piece, so \<open>lines[0]\<close> exists.
\<close>

definition title_and_content :: "pystr \<Rightarrow> pystr \<times> pystr" where
  "title_and_content stripped =
     (case str_split [10] stripped of
        [] \<Rightarrow> ([], [])
      | first_line # more_lines \<Rightarrow> (first_line, str_join [10] more_lines))"

definition section_panel :: "pystr \<Rightarrow> renderable" where
  "section_panel section =
     (let (section_title, section_content) = title_and_content (strip section)
      in Panel (Markdown section_content) (Some (Text section_title (lit ''bold yellow''))) (lit ''green''))"

definition print_section :: "pystr \<Rightarrow> state \<Rightarrow> state" where
  "print_section section s =
     (if strip section \<noteq> []
      then console_print (Str [10]) None (console_print (section_panel section) None s)
      else s)"

text \<open>
  What a section adds to the console, and the titled blocks among what was printed: the
  title and the content of every panel that has a title and markdown content.
\<close>

definition section_prints :: "pystr \<Rightarrow> printed list" where
  "section_prints section =
     (if strip section \<noteq> []
      then [ConsolePrint (section_panel section) None, ConsolePrint (Str [10]) None]
      else [])"

fun block_of :: "printed \<Rightarrow> (pystr \<times> pystr) option" where
  "block_of (ConsolePrint (Panel (Markdown section_content) (Some (Text section_title style)) border) st)
     = Some (section_title, section_content)"
| "block_of other = None"

definition section_blocks :: "printed list \<Rightarrow> (pystr \<times> pystr) list" where
  "section_blocks out = List.map_filter block_of out"

text \<open>
  \<^verbatim>\<open>
  def display_report(self, report: str):
      ... banner and date line ...
      sections = report.split("---")
      for section in sections: ...
  \<close>
\<close>

definition display_report :: "env \<Rightarrow> pystr \<Rightarrow> state \<Rightarrow> state" where
  "display_report e report s =
     foldl (\<lambda>st section. print_section section st) (print_banner e s) (str_split (lit ''---'') report)"

section \<open>The daily report\<close>

text \<open>\<open>cached_data['full_report']\<close> on what \<open>json.load\<close> returned.\<close>

definition getitem :: "json \<Rightarrow> pystr \<Rightarrow> exn + json" where
  "getitem v key =
     (case v of
        JObject d \<Rightarrow> (case map_of d key of None \<Rightarrow> Inl KeyError | Some x \<Rightarrow> Inr x)
      | _ \<Rightarrow> Inl TypeError)"

definition full_report_text :: "pystr \<Rightarrow> pystr \<Rightarrow> pystr \<Rightarrow> pystr" where
  "full_report_text today all_repos_summary golang_repos_summary =
     lit ''Daily GitHub Trending Repositories Report'' @ [10]
     @ today @ [10, 10]
     @ lit ''--- All Trending Repositories ---'' @ [10]
     @ all_repos_summary @ [10, 10]
     @ lit ''--- Trending Golang Repositories ---'' @ [10]
     @ golang_repos_summary @ [10]"

text \<open>The dictionary that is saved: \<open>{'timestamp': ..., 'full_report': ...}\<close>.\<close>

definition cache_data :: "pystr \<Rightarrow> pystr \<Rightarrow> json" where
  "cache_data timestamp full_report =
     JObject [(lit ''timestamp'', JString timestamp), (lit ''full_report'', JString full_report)]"

text \<open>
  \<open>generate_daily_report\<close>: a fresh cache is loaded and displayed; otherwise the two
  listings are fetched and summarized in turn, the report is assembled, saved and
  displayed. An exception of any call, the freshness check included, ends the run there. A cached \<open>full_report\<close>
  that is not a string makes \<open>report.split\<close> raise after the banner was printed.
\<close>

definition generate_daily_report :: "env \<Rightarrow> state \<Rightarrow> (exn + unit) \<times> state" where
  "generate_daily_report e s0 =
     (case should_refresh_cache e s0 of
        (Inl err, s1) \<Rightarrow> (Inl err, s1)
      | (Inr False, s1) \<Rightarrow>
          (let s2 = console_print (Str (128194 # lit '' Loading report from cache...''))
                      (Some (lit ''bold blue'')) s1
           in case load_cached_report e s2 of
                Inl err \<Rightarrow> (Inl err, s2)
              | Inr cached_data \<Rightarrow>
                  (case getitem cached_data (lit ''full_report'') of
                     Inl err \<Rightarrow> (Inl err, s2)
                   | Inr (JString report) \<Rightarrow> (Inr (), display_report e report s2)
                   | Inr _ \<Rightarrow> (Inl AttributeError, print_banner e s2)))
      | (Inr True, s1) \<Rightarrow>
          (let s2 = console_print (Str (128260 # lit '' Fetching fresh data...''))
                      (Some (lit ''bold green'')) s1
           in case fetch_trending_repos e None s2 of
                (Inl err, s3) \<Rightarrow> (Inl err, s3)
              | (Inr all_trending, s3) \<Rightarrow>
                  (let s4 = s3\<lparr>console := console s3 @ [BuiltinPrint all_trending]\<rparr>
                   in case generate_repo_summary e all_trending s4 of
                        (Inl err, s5) \<Rightarrow> (Inl err, s5)
                      | (Inr all_repos_summary, s5) \<Rightarrow>
                          (case fetch_trending_repos e (Some (lit ''go'')) s5 of
                             (Inl err, s6) \<Rightarrow> (Inl err, s6)
                           | (Inr golang_trending, s6) \<Rightarrow>
                               (case generate_repo_summary e golang_trending s6 of
                                  (Inl err, s7) \<Rightarrow> (Inl err, s7)
                                | (Inr golang_repos_summary, s7) \<Rightarrow>
                                    (let (today, s8) = datetime_now e s7;
                                         full_report = full_report_text (strftime_ymd e today)
                                                         all_repos_summary golang_repos_summary;
                                         (stamp, s9) = datetime_now e s8;
                                         s10 = save_cache e (cache_data (isoformat e stamp) full_report) s9;
                                         s11 = display_report e full_report s10
                                     in (Inr (),
                                         console_print
                                           (Str (10024 # lit '' Fresh report generated and cached!''))
                                           (Some (lit ''bold green'')) s11)))))))"

section \<open>Example values\<close>

text \<open>States and environments at which the theorems below are instantiated.\<close>

definition cached_at :: "int \<Rightarrow> bytes \<Rightarrow> state" where
  "cached_at t txt =
     \<lparr>files = [cache_file \<mapsto> \<lparr>content = txt, mtime = t\<rparr>], console = [], requests = [],
      prompts = [], clock_reads = 0\<rparr>"

definition no_cache :: state where
  "no_cache = \<lparr>files = Map.empty, console = [], requests = [], prompts = [], clock_reads = 0\<rparr>"

text \<open>
  An environment in UTC whose clock stands still at \<open>t\<close> and whose interpreter lets
  the scanner enter 994 nested objects and arrays, and one in a zone that is
  one hour ahead of UTC and two hours during its daylight saving time, which in 2024 began
  on March 31 and ended on October 27, at 01:00 UTC (the rules of Europe/Berlin).
\<close>

definition fixed_env :: "int \<Rightarrow> node \<Rightarrow> env" where
  "fixed_env t page =
     \<lparr>requests_get = (\<lambda>k url. Inr \<lparr>status_code = 200, response_text = lit ''<html>''\<rparr>),
      html_parser = (\<lambda>markup. page),
      chat_completion = (\<lambda>k prompt. Inr (lit ''Summary'')),
      clock = (\<lambda>k. t),
      utcoffset = (\<lambda>u. 0),
      localtime_fails = (\<lambda>u. False),
      strftime_ymd = (\<lambda>d. lit ''2024-05-01''),
      isoformat = (\<lambda>d. lit ''2024-05-01T10:00:00''),
      deeper_levels = 993\<rparr>"

definition berlin_2024 :: "int \<Rightarrow> int" where
  "berlin_2024 u = (if 1711846800 \<le> u \<and> u < 1729990800 then 7200 else 3600)"

definition berlin_env :: "int \<Rightarrow> env" where
  "berlin_env t = (fixed_env t (NavigableString []))\<lparr>utcoffset := berlin_2024\<rparr>"

text \<open>
  Listing pages: an entry with a title, an optional description and its links, as the
  trending page nests them.
\<close>

definition listing_entry :: "pystr \<Rightarrow> node list \<Rightarrow> node list \<Rightarrow> node" where
  "listing_entry title_text description_part links =
     Tag (lit ''article'') [lit ''Box-row'']
       ([Tag (lit ''h2'') [lit ''h3'', lit ''lh-condensed'']
           [Tag (lit ''a'') [lit ''Link''] [NavigableString title_text]]]
        @ description_part
        @ [Tag (lit ''div'') [lit ''f6''] links])"

definition muted_link :: "pystr \<Rightarrow> node" where
  "muted_link txt = Tag (lit ''a'') [lit ''Link'', lit ''Link--muted''] [NavigableString txt]"

definition description_p :: "pystr \<Rightarrow> node" where
  "description_p txt = Tag (lit ''p'') [lit ''col-9'', lit ''my-1''] [NavigableString txt]"

definition page_of :: "node list \<Rightarrow> node" where
  "page_of entries = Tag (lit ''[document]'') [] [Tag (lit ''main'') [] entries]"

definition octo_entry :: node where
  "octo_entry = listing_entry ([10, 32, 32] @ lit ''octo /'' @ [10, 10, 32, 32] @ lit ''repo'' @ [10])
                  [description_p ([10, 32] @ lit ''A tool'' @ [32, 10])]
                  [muted_link (lit '' 1,234''), muted_link (lit '' 56'')]"

definition octo_record :: repo where
  "octo_record = \<lparr>full_name = lit ''octo/repo'', description = lit ''A tool'',
                   html_url = lit ''https://github.com/octo/repo'', stargazers_count = lit ''56''\<rparr>"

definition bare_entry :: node where
  "bare_entry = listing_entry (lit ''octo / bare'') []
                  [muted_link (lit ''7''), muted_link (lit ''3'')]"

definition untitled_entry :: node where
  "untitled_entry = Tag (lit ''article'') [lit ''Box-row'']
                      [description_p (lit ''A tool''),
                       Tag (lit ''div'') [lit ''f6''] [muted_link (lit ''7''), muted_link (lit ''3'')]]"

definition one_link_entry :: node where
  "one_link_entry = listing_entry (lit ''octo / bare'') [] [muted_link (lit ''7'')]"

definition rate_limited_env :: env where
  "rate_limited_env =
     (fixed_env 0 (page_of [Tag (lit ''h1'') [] [NavigableString (lit ''Whoa there!'')]]))
       \<lparr>requests_get := (\<lambda>k url. Inr \<lparr>status_code = 429, response_text = lit ''<h1>Whoa there!</h1>''\<rparr>)\<rparr>"

definition bare_record :: repo where
  "bare_record = \<lparr>full_name = lit ''octo/bare'', description = [],
                   html_url = lit ''https://github.com/octo/bare'', stargazers_count = lit ''3''\<rparr>"

text \<open>
  An environment in which the requests and the completions with the given numbers fail,
  and a state whose cache file is two days old.
\<close>

definition flaky_env :: "nat list \<Rightarrow> nat list \<Rightarrow> node \<Rightarrow> env" where
  "flaky_env bad_requests bad_completions page =
     (fixed_env 0 page)
       \<lparr>requests_get := (\<lambda>k url. if k \<in> set bad_requests then Inl RequestException
                                  else Inr \<lparr>status_code = 200, response_text = lit ''<html>''\<rparr>),
        chat_completion := (\<lambda>k prompt. if k \<in> set bad_completions then Inl APIError
                                        else Inr (lit ''Summary''))\<rparr>"

definition stale_cache :: state where
  "stale_cache = cached_at (- timedelta_hours 48) (lit ''{\"timestamp\": \"old\", \"full_report\": \"old\"}'')"

lemmas example_defs = fixed_env_def page_of_def octo_entry_def listing_entry_def muted_link_def
  description_p_def no_cache_def octo_record_def bare_entry_def untitled_entry_def one_link_entry_def
  rate_limited_env_def bare_record_def

lemmas eval_defs = article_repo_def select_one_def select_def strip_def isspace_def lit_def Let_def
  fetch_trending_repos_def trending_url_def

lemmas time_defs = should_refresh_cache_def fromtimestamp_def local_seconds_def local_time_def
  datetime_now_def max_fold_seconds_def datetime_min_seconds_def datetime_max_seconds_def
  timedelta_hours_def timedelta_seconds_def Let_def

lemmas run_defs = flaky_env_def stale_cache_def cached_at_def time_defs generate_repo_summary_def

text \<open>A report body without a delimiter.\<close>

definition plain_report :: pystr where
  "plain_report = lit ''  Title'' @ [10] @ lit ''line one'' @ [10] @ lit ''line two'' @ [10]"

lemmas render_defs = display_report_def print_banner_def print_section_def section_panel_def
  title_and_content_def console_print_def datetime_now_def section_blocks_def List.map_filter_def
  strip_def isspace_def lit_def Let_def plain_report_def

text \<open>A report with characters of every kind that the encoder escapes.\<close>

definition sample_report :: pystr where
  "sample_report = lit ''Daily report'' @ [10, 10] @ lit ''--- All ---'' @ [10, 128640, 32, 233]
                     @ lit '' \"quoted\" '' @ [92] @ lit '' done'' @ [9, 55357]"


section \<open>Freshness of the cache\<close>











text \<open>
  C9. The freshness decision reads the existence of the cache file and its
  last-modified time only: two runs in the same time zone in which the cache file is
  absent in both, or exists in both with the same modification time, get the same decision
  at the same reading of the clock, whatever the contents of the two files are (the
  timestamp field stored inside included).
\<close>

theorem should_refresh_cache_ignores_content:
  "map_option mtime (files s1 cache_file) = map_option mtime (files s2 cache_file) \<Longrightarrow>
   clock e1 (clock_reads s1) = clock e2 (clock_reads s2) \<Longrightarrow>
   utcoffset e1 = utcoffset e2 \<Longrightarrow>
   localtime_fails e1 = localtime_fails e2 \<Longrightarrow>
   fst (should_refresh_cache e1 s1) = fst (should_refresh_cache e2 s2)"
proof -
  assume m: "map_option mtime (files s1 cache_file) = map_option mtime (files s2 cache_file)"
    and c: "clock e1 (clock_reads s1) = clock e2 (clock_reads s2)"
    and z: "utcoffset e1 = utcoffset e2" "localtime_fails e1 = localtime_fails e2"
  have "local_seconds e1 = local_seconds e2"
    unfolding local_seconds_def z ..
  then have conv: "fromtimestamp e1 t = fromtimestamp e2 t" for t
    by (simp only: fromtimestamp_def)
  have now: "local_time e1 (clock e1 (clock_reads s1)) = local_time e2 (clock e2 (clock_reads s2))"
    by (simp add: local_time_def z c)
  show ?thesis
  proof (cases "files s1 cache_file")
    case None
    then have "files s2 cache_file = None" using m by simp
    then show ?thesis using None by (simp add: should_refresh_cache_def)
  next
    case (Some f1)
    then obtain f2 where f2: "files s2 cache_file = Some f2" "mtime f2 = mtime f1"
      using m by (cases "files s2 cache_file") auto
    show ?thesis
      using Some f2 now
      by (simp add: should_refresh_cache_def datetime_now_def conv split: sum.splits)
  qed
qed

theorem should_refresh_cache_ignores_content_witness:
  "content (the (files (cached_at 1714471200000000 (lit ''{\"timestamp\": \"2024-05-01\"}'')) cache_file))
     \<noteq> content (the (files (cached_at 1714471200000000 (lit ''junk'')) cache_file)) \<and>
   fst (should_refresh_cache (berlin_env 1714557600000000)
          (cached_at 1714471200000000 (lit ''{\"timestamp\": \"2024-05-01\"}'')))
     = fst (should_refresh_cache (berlin_env 1714557600000000)
              (cached_at 1714471200000000 (lit ''junk'')))"
  using should_refresh_cache_ignores_content
    [where ?s1.0 = "cached_at 1714471200000000 (lit ''{\"timestamp\": \"2024-05-01\"}'')"
       and ?s2.0 = "cached_at 1714471200000000 (lit ''junk'')"
       and ?e1.0 = "berlin_env 1714557600000000"
       and ?e2.0 = "berlin_env 1714557600000000"]
  by (simp add: cached_at_def lit_def)

section \<open>The records of a fetch\<close>

lemma str_replace_char_set: "set (str_replace [c] [] s) = set s - {c}"
  by (induction s) auto

lemma article_repo_Inr:
  "article_repo a = Inr r \<Longrightarrow>
     html_url r = lit ''https://github.com/'' @ full_name r \<and> 32 \<notin> set (full_name r)
     \<and> 10 \<notin> set (full_name r)"
  by (auto simp: article_repo_def Let_def str_replace_char_set lit_def split: option.splits list.splits)

lemma collect_repos_Inr:
  "collect_repos articles acc = Inr rs \<Longrightarrow>
     \<exists>new. rs = acc @ new \<and> map article_repo articles = map Inr new"
proof (induction articles arbitrary: acc)
  case Nil
  then show ?case by simp
next
  case (Cons a articles)
  then obtain r where r: "article_repo a = Inr r" and rest: "collect_repos articles (acc @ [r]) = Inr rs"
    by (auto split: sum.splits)
  from Cons.IH [OF rest] obtain new where "rs = (acc @ [r]) @ new" "map article_repo articles = map Inr new"
    by blast
  then show ?case using r by (intro exI [of _ "r # new"]) simp
qed

lemma collect_repos_ok:
  "map article_repo articles = map Inr new \<Longrightarrow> collect_repos articles acc = Inr (acc @ new)"
  by (induction articles arbitrary: acc new) (auto split: sum.splits)

lemma article_repo_ok: "has_title_and_links a \<Longrightarrow> \<exists>r. article_repo a = Inr r"
  by (auto simp: article_repo_def has_title_and_links_def Let_def split: option.splits list.splits)

lemma article_repo_no_description:
  "article_repo a = Inr r \<Longrightarrow> select_one (lit ''p'') (lit ''col-9'') a = None \<Longrightarrow> description r = []"
  by (auto simp: article_repo_def Let_def split: option.splits list.splits)

lemma fetch_Inr:
  assumes "fst (fetch_trending_repos e language s) = Inr rs"
  shows "\<exists>resp trending.
           requests_get e (length (requests s)) (trending_url language) = Inr resp
           \<and> map article_repo (select (lit ''article'') (lit ''Box-row'')
                 (html_parser e (response_text resp))) = map Inr trending
           \<and> rs = take 10 trending"
  using assms
  by (auto simp: fetch_trending_repos_def Let_def split: sum.splits dest!: collect_repos_Inr)

lemma fetch_ok:
  assumes "requests_get e (length (requests s)) (trending_url language) = Inr resp"
    and "map article_repo (select (lit ''article'') (lit ''Box-row'')
           (html_parser e (response_text resp))) = map Inr trending"
  shows "fst (fetch_trending_repos e language s) = Inr (take 10 trending)"
  using assms collect_repos_ok [of _ trending "[]"]
  by (simp add: fetch_trending_repos_def Let_def)

lemma all_entries_ok:
  "\<forall>a\<in>set articles. has_title_and_links a \<Longrightarrow> \<exists>trending. map article_repo articles = map Inr trending"
proof (induction articles)
  case Nil
  then show ?case by simp
next
  case (Cons a articles)
  then obtain r trending where "article_repo a = Inr r" "map article_repo articles = map Inr trending"
    using article_repo_ok [of a] by auto
  then show ?case by (intro exI [of _ "r # trending"]) simp
qed

lemma article_repo_octo: "article_repo octo_entry = Inr octo_record"
  by (simp add: eval_defs example_defs)

lemma fetch_octo:
  "fst (fetch_trending_repos (fixed_env 0 (page_of [octo_entry])) None no_cache) = Inr [octo_record]"
  by (simp add: eval_defs example_defs)

lemma has_title_and_links_octo: "has_title_and_links octo_entry"
  by (simp add: has_title_and_links_def eval_defs example_defs)

lemma has_title_and_links_bare: "has_title_and_links bare_entry"
  by (simp add: has_title_and_links_def eval_defs example_defs)

lemma select_entries:
  "select (lit ''article'') (lit ''Box-row'') (page_of (replicate n octo_entry @ [bare_entry]))
     = replicate n octo_entry @ [bare_entry]"
  by (induction n) (simp_all add: eval_defs example_defs)

lemma select_two_entries:
  "select (lit ''article'') (lit ''Box-row'') (page_of [octo_entry, bare_entry]) = [octo_entry, bare_entry]"
  by (simp add: eval_defs example_defs)

text \<open>
  C10. Every record that \<open>fetch_trending_repos\<close> returns has as \<open>html_url\<close> the
  string \<open>https://github.com/\<close> followed by its \<open>full_name\<close>, and its
  \<open>full_name\<close> contains neither a space nor a newline character.
\<close>

theorem fetch_record_urls:
  assumes "fst (fetch_trending_repos e language s) = Inr rs" and "r \<in> set rs"
  shows "html_url r = lit ''https://github.com/'' @ full_name r
         \<and> 32 \<notin> set (full_name r) \<and> 10 \<notin> set (full_name r)"
proof -
  from fetch_Inr [OF assms(1)] obtain articles trending where
    m: "map article_repo articles = map Inr trending" and rs: "rs = take 10 trending"
    by blast
  from assms(2) rs have "r \<in> set trending" by (auto dest: in_set_takeD)
  then have "Inr r \<in> set (map article_repo articles)" using m by simp
  then obtain a where "article_repo a = Inr r" by auto
  then show ?thesis by (rule article_repo_Inr)
qed

theorem fetch_record_urls_witness:
  "fst (fetch_trending_repos (fixed_env 0 (page_of [octo_entry])) None no_cache) = Inr [octo_record]
   \<and> html_url octo_record = lit ''https://github.com/'' @ full_name octo_record
   \<and> 32 \<notin> set (full_name octo_record) \<and> 10 \<notin> set (full_name octo_record)"
  using fetch_record_urls [OF fetch_octo, of octo_record] fetch_octo by simp

text \<open>
  C4 (as amended). For every listing page whose markup contains N entries matching
  \<open>article.Box-row\<close>, each of them with an \<open>h2.h3\<close> title element and at least two
  \<open>a.Link--muted\<close> elements, \<open>fetch_trending_repos\<close> returns exactly min(N, 10)
  records, the i-th of them built from the i-th entry of the page.
\<close>

theorem fetch_returns_first_ten:
  assumes "requests_get e (length (requests s)) (trending_url language) = Inr resp"
    and "articles = select (lit ''article'') (lit ''Box-row'') (html_parser e (response_text resp))"
    and "\<forall>a\<in>set articles. has_title_and_links a"
  shows "\<exists>rs. fst (fetch_trending_repos e language s) = Inr rs
              \<and> length rs = min (length articles) 10
              \<and> (\<forall>i<length rs. article_repo (articles ! i) = Inr (rs ! i))"
proof -
  from all_entries_ok [OF assms(3)] obtain trending where
    m: "map article_repo articles = map Inr trending" by blast
  then have len: "length trending = length articles" by (metis length_map)
  have nth: "article_repo (articles ! i) = Inr (trending ! i)" if "i < length articles" for i
    using that m len by (metis nth_map)
  have "fst (fetch_trending_repos e language s) = Inr (take 10 trending)"
    using fetch_ok [OF assms(1)] m assms(2) by simp
  moreover have "length (take 10 trending) = min (length articles) 10"
    using len by simp
  moreover have "\<forall>i<length (take 10 trending). article_repo (articles ! i) = Inr (take 10 trending ! i)"
    using nth len by simp
  ultimately show ?thesis by blast
qed

theorem fetch_returns_first_ten_witness:
  "length (select (lit ''article'') (lit ''Box-row'') (page_of (replicate 10 octo_entry @ [bare_entry]))) = 11
   \<and> fst (fetch_trending_repos (fixed_env 0 (page_of (replicate 10 octo_entry @ [bare_entry]))) None no_cache)
       = Inr (replicate 10 octo_record)"
proof -
  let ?arts = "replicate 10 octo_entry @ [bare_entry]"
  let ?e = "fixed_env 0 (page_of ?arts)"
  have h1: "requests_get ?e (length (requests no_cache)) (trending_url None)
              = Inr \<lparr>status_code = 200, response_text = lit ''<html>''\<rparr>"
    by (simp add: fixed_env_def)
  have h2: "?arts = select (lit ''article'') (lit ''Box-row'')
                      (html_parser ?e (response_text \<lparr>status_code = 200, response_text = lit ''<html>''\<rparr>))"
    using select_entries [of 10] by (simp add: fixed_env_def)
  have h3: "\<forall>a\<in>set ?arts. has_title_and_links a"
    by (auto simp: has_title_and_links_octo has_title_and_links_bare)
  from fetch_returns_first_ten [OF h1 h2 h3] obtain rs where
    rs: "fst (fetch_trending_repos ?e None no_cache) = Inr rs"
      and len: "length rs = min (length ?arts) 10"
      and nth: "\<forall>i<length rs. article_repo (?arts ! i) = Inr (rs ! i)"
    by blast
  have len10: "length rs = 10" using len by simp
  have "rs ! i = octo_record" if "i < 10" for i
  proof -
    have "?arts ! i = octo_entry" using that by (simp add: nth_append)
    moreover have "article_repo (?arts ! i) = Inr (rs ! i)" using nth that len10 by simp
    ultimately show ?thesis using article_repo_octo by simp
  qed
  then have "rs = replicate 10 octo_record" using len10 by (simp add: list_eq_iff_nth_eq)
  then show ?thesis using rs select_entries [of 10] by simp
qed

text \<open>
  C4 as stated fails: a page with one entry matching \<open>article.Box-row\<close> that has no
  \<open>h2.h3\<close> element makes the fetch raise instead of returning one record.
\<close>

theorem fetch_untitled_entry_raises:
  "select (lit ''article'') (lit ''Box-row'') (page_of [untitled_entry]) = [untitled_entry]
   \<and> fst (fetch_trending_repos (fixed_env 0 (page_of [untitled_entry])) None no_cache)
       = Inl AttributeError"
  by (simp add: eval_defs example_defs)

text \<open>
  C8 (as amended). On a listing page all of whose entries have an \<open>h2.h3\<close> title
  element and at least two \<open>a.Link--muted\<close> elements, every entry among the first
  ten whose description element \<open>p.col-9\<close> is missing gets a record with the empty
  string as description; the fetch does not fail.
\<close>

theorem missing_description_is_empty:
  assumes "requests_get e (length (requests s)) (trending_url language) = Inr resp"
    and "articles = select (lit ''article'') (lit ''Box-row'') (html_parser e (response_text resp))"
    and "\<forall>a\<in>set articles. has_title_and_links a"
    and "i < min (length articles) 10"
    and "select_one (lit ''p'') (lit ''col-9'') (articles ! i) = None"
  shows "\<exists>rs. fst (fetch_trending_repos e language s) = Inr rs
              \<and> i < length rs \<and> description (rs ! i) = []"
proof -
  from all_entries_ok [OF assms(3)] obtain trending where
    m: "map article_repo articles = map Inr trending" by blast
  then have len: "length trending = length articles" by (metis length_map)
  have i: "i < length articles" "i < 10" using assms(4) by simp_all
  have "article_repo (articles ! i) = Inr (trending ! i)"
    using i(1) m len by (metis nth_map)
  then have "description (trending ! i) = []"
    using assms(5) by (rule article_repo_no_description)
  moreover have "fst (fetch_trending_repos e language s) = Inr (take 10 trending)"
    using fetch_ok [OF assms(1)] m assms(2) by simp
  moreover have "i < length (take 10 trending)" using i len by simp
  ultimately show ?thesis using i by auto
qed

theorem missing_description_is_empty_witness:
  "select_one (lit ''p'') (lit ''col-9'') bare_entry = None
   \<and> fst (fetch_trending_repos (fixed_env 0 (page_of [octo_entry, bare_entry])) None no_cache)
       = Inr [octo_record, bare_record]
   \<and> description bare_record = []"
proof -
  let ?arts = "[octo_entry, bare_entry]"
  let ?e = "fixed_env 0 (page_of ?arts)"
  have h1: "requests_get ?e (length (requests no_cache)) (trending_url None)
              = Inr \<lparr>status_code = 200, response_text = lit ''<html>''\<rparr>"
    by (simp add: fixed_env_def)
  have h2: "?arts = select (lit ''article'') (lit ''Box-row'')
                      (html_parser ?e (response_text \<lparr>status_code = 200, response_text = lit ''<html>''\<rparr>))"
    using select_two_entries by (simp add: fixed_env_def)
  have h3: "\<forall>a\<in>set ?arts. has_title_and_links a"
    by (simp add: has_title_and_links_octo has_title_and_links_bare)
  have h4: "1 < min (length ?arts) 10" by simp
  have h5: "select_one (lit ''p'') (lit ''col-9'') (?arts ! 1) = None"
    by (simp add: eval_defs example_defs)
  have run: "fst (fetch_trending_repos ?e None no_cache) = Inr [octo_record, bare_record]"
    by (simp add: eval_defs example_defs bare_record_def)
  from missing_description_is_empty [OF h1 h2 h3 h4 h5] obtain rs where
    "fst (fetch_trending_repos ?e None no_cache) = Inr rs" "description (rs ! 1) = []"
    by blast
  with run have "description bare_record = []" by simp
  with run h5 show ?thesis by simp
qed

text \<open>
  C8 as stated fails: an entry matching \<open>article.Box-row\<close> without a description
  element that has a single \<open>a.Link--muted\<close> element makes the whole fetch raise.
\<close>

theorem fetch_entry_without_links_raises:
  "select (lit ''article'') (lit ''Box-row'') (page_of [one_link_entry]) = [one_link_entry]
   \<and> select_one (lit ''p'') (lit ''col-9'') one_link_entry = None
   \<and> fst (fetch_trending_repos (fixed_env 0 (page_of [one_link_entry])) None no_cache)
       = Inl IndexError"
  by (simp add: eval_defs example_defs)

text \<open>
  C2. The claim is that a non-success HTTP status makes \<open>fetch_trending_repos\<close> fail.
  The code does not read the status: the response of a rate-limited request (status 429)
  is parsed like any other, and the call returns a record list, here the empty one.
  Whatever the status code, the call returns what it returns for the same body with the
  status 200.
\<close>

theorem fetch_parses_error_response:
  "requests_get rate_limited_env 0 (trending_url None)
     = Inr \<lparr>status_code = 429, response_text = lit ''<h1>Whoa there!</h1>''\<rparr>
   \<and> fst (fetch_trending_repos rate_limited_env None no_cache) = Inr []
   \<and> fst (fetch_trending_repos
            (e\<lparr>requests_get := (\<lambda>k url. Inr \<lparr>status_code = code, response_text = body\<rparr>)\<rparr>) language s)
       = fst (fetch_trending_repos
            (e\<lparr>requests_get := (\<lambda>k url. Inr \<lparr>status_code = 200, response_text = body\<rparr>)\<rparr>) language s)"
  by (simp add: eval_defs example_defs)

section \<open>Failures during a refresh\<close>

lemma fetch_snd: "snd (fetch_trending_repos e language s) = s\<lparr>requests := requests s @ [trending_url language]\<rparr>"
  by (simp add: fetch_trending_repos_def Let_def split: sum.splits)

lemma fetch_fst_cong:
  "length (requests s) = length (requests s') \<Longrightarrow>
   fst (fetch_trending_repos e language s) = fst (fetch_trending_repos e language s')"
  by (simp add: fetch_trending_repos_def Let_def split: sum.splits)

lemma summary_snd:
  "snd (generate_repo_summary e repos s) = s\<lparr>prompts := prompts s @ [summary_prompt repos]\<rparr>"
  by (simp add: generate_repo_summary_def Let_def)

lemma summary_fst_cong:
  "length (prompts s) = length (prompts s') \<Longrightarrow>
   fst (generate_repo_summary e repos s) = fst (generate_repo_summary e repos s')"
  by (simp add: generate_repo_summary_def Let_def)

lemma should_refresh_snd:
  "files (snd (should_refresh_cache e s)) = files s"
  "requests (snd (should_refresh_cache e s)) = requests s"
  "prompts (snd (should_refresh_cache e s)) = prompts s"
  "console (snd (should_refresh_cache e s)) = console s"
  by (simp_all add: should_refresh_cache_def datetime_now_def split: option.splits sum.splits)

lemma fetch_unfold:
  "fetch_trending_repos e language s
     = (fetch_outcome e language (length (requests s)),
        s\<lparr>requests := requests s @ [trending_url language]\<rparr>)"
  by (simp add: fetch_outcome_def fetch_trending_repos_def Let_def split: sum.splits)

lemma summary_unfold:
  "generate_repo_summary e repos s
     = (chat_completion e (length (prompts s)) (summary_prompt repos),
        s\<lparr>prompts := prompts s @ [summary_prompt repos]\<rparr>)"
  by (simp add: generate_repo_summary_def Let_def)

lemma should_refresh_True:
  assumes "fst (should_refresh_cache e s) = Inr True"
  obtains s1 where "should_refresh_cache e s = (Inr True, s1)" "files s1 = files s"
    "requests s1 = requests s" "prompts s1 = prompts s"
  using assms should_refresh_snd [of e s] by (cases "should_refresh_cache e s") auto

lemma refresh_fetch_all_fails:
  assumes "fst (should_refresh_cache e s) = Inr True"
    and "fst (fetch_trending_repos e None s) = Inl err"
  shows "fst (generate_daily_report e s) = Inl err"
    and "files (snd (generate_daily_report e s)) = files s"
    and "requests (snd (generate_daily_report e s)) = requests s @ [trending_url None]"
    and "prompts (snd (generate_daily_report e s)) = prompts s"
proof -
  from assms(1) obtain s1 where s1: "should_refresh_cache e s = (Inr True, s1)" "files s1 = files s"
    "requests s1 = requests s" "prompts s1 = prompts s"
    by (rule should_refresh_True)
  show "fst (generate_daily_report e s) = Inl err"
    and "files (snd (generate_daily_report e s)) = files s"
    and "requests (snd (generate_daily_report e s)) = requests s @ [trending_url None]"
    and "prompts (snd (generate_daily_report e s)) = prompts s"
    using assms(2)
    by (simp_all add: generate_daily_report_def s1 fetch_unfold summary_unfold Let_def console_print_def)
qed

lemma refresh_summary_all_fails:
  assumes "fst (should_refresh_cache e s) = Inr True"
    and "fst (fetch_trending_repos e None s) = Inr all_trending"
    and "fst (generate_repo_summary e all_trending s) = Inl err"
  shows "fst (generate_daily_report e s) = Inl err"
    and "files (snd (generate_daily_report e s)) = files s"
    and "requests (snd (generate_daily_report e s)) = requests s @ [trending_url None]"
    and "prompts (snd (generate_daily_report e s)) = prompts s @ [summary_prompt all_trending]"
proof -
  from assms(1) obtain s1 where s1: "should_refresh_cache e s = (Inr True, s1)" "files s1 = files s"
    "requests s1 = requests s" "prompts s1 = prompts s"
    by (rule should_refresh_True)
  show "fst (generate_daily_report e s) = Inl err"
    and "files (snd (generate_daily_report e s)) = files s"
    and "requests (snd (generate_daily_report e s)) = requests s @ [trending_url None]"
    and "prompts (snd (generate_daily_report e s)) = prompts s @ [summary_prompt all_trending]"
    using assms(2,3)
    by (simp_all add: generate_daily_report_def s1 fetch_unfold summary_unfold Let_def console_print_def)
qed

lemma refresh_fetch_go_fails:
  assumes "fst (should_refresh_cache e s) = Inr True"
    and "fst (fetch_trending_repos e None s) = Inr all_trending"
    and "fst (generate_repo_summary e all_trending s) = Inr all_repos_summary"
    and "fst (fetch_trending_repos e (Some (lit ''go'')) (snd (fetch_trending_repos e None s))) = Inl err"
  shows "fst (generate_daily_report e s) = Inl err"
    and "files (snd (generate_daily_report e s)) = files s"
    and "requests (snd (generate_daily_report e s))
           = requests s @ [trending_url None, trending_url (Some (lit ''go''))]"
    and "prompts (snd (generate_daily_report e s)) = prompts s @ [summary_prompt all_trending]"
proof -
  from assms(1) obtain s1 where s1: "should_refresh_cache e s = (Inr True, s1)" "files s1 = files s"
    "requests s1 = requests s" "prompts s1 = prompts s"
    by (rule should_refresh_True)
  show "fst (generate_daily_report e s) = Inl err"
    and "files (snd (generate_daily_report e s)) = files s"
    and "requests (snd (generate_daily_report e s))
           = requests s @ [trending_url None, trending_url (Some (lit ''go''))]"
    and "prompts (snd (generate_daily_report e s)) = prompts s @ [summary_prompt all_trending]"
    using assms(2,3,4)
    by (simp_all add: generate_daily_report_def s1 fetch_unfold summary_unfold Let_def console_print_def)
qed

lemma refresh_summary_go_fails:
  assumes "fst (should_refresh_cache e s) = Inr True"
    and "fst (fetch_trending_repos e None s) = Inr all_trending"
    and "fst (generate_repo_summary e all_trending s) = Inr all_repos_summary"
    and "fst (fetch_trending_repos e (Some (lit ''go'')) (snd (fetch_trending_repos e None s)))
           = Inr golang_trending"
    and "fst (generate_repo_summary e golang_trending (snd (generate_repo_summary e all_trending s)))
           = Inl err"
  shows "fst (generate_daily_report e s) = Inl err"
    and "files (snd (generate_daily_report e s)) = files s"
    and "prompts (snd (generate_daily_report e s))
           = prompts s @ [summary_prompt all_trending, summary_prompt golang_trending]"
proof -
  from assms(1) obtain s1 where s1: "should_refresh_cache e s = (Inr True, s1)" "files s1 = files s"
    "requests s1 = requests s" "prompts s1 = prompts s"
    by (rule should_refresh_True)
  show "fst (generate_daily_report e s) = Inl err"
    and "files (snd (generate_daily_report e s)) = files s"
    and "prompts (snd (generate_daily_report e s))
           = prompts s @ [summary_prompt all_trending, summary_prompt golang_trending]"
    using assms(2,3,4,5)
    by (simp_all add: generate_daily_report_def s1 fetch_unfold summary_unfold Let_def console_print_def)
qed


lemma print_banner_files: "files (print_banner e s) = files s"
  by (simp add: print_banner_def console_print_def datetime_now_def Let_def)

lemma failed_run_keeps_files:
  assumes "fst (generate_daily_report e s) = Inl err"
  shows "files (snd (generate_daily_report e s)) = files s"
proof -
  obtain b s1 where s1: "should_refresh_cache e s = (b, s1)" by (cases "should_refresh_cache e s")
  then have fs: "files s1 = files s" using should_refresh_snd(1) [of e s] by simp
  consider (raised) x where "b = Inl x" | (refresh) "b = Inr True" | (fresh) "b = Inr False"
    by (cases b) auto
  then show ?thesis
  proof cases
    case raised
    then show ?thesis
      using fs by (simp add: generate_daily_report_def s1)
  next
    case refresh
    then show ?thesis
      using assms fs
      by (simp add: generate_daily_report_def s1 fetch_unfold summary_unfold Let_def
            console_print_def split: sum.splits prod.splits)
  next
    case fresh
    then show ?thesis
      using assms fs
      by (simp add: generate_daily_report_def s1 Let_def console_print_def print_banner_files
            split: sum.splits json.splits)
  qed
qed

lemma flaky_refresh: "fst (should_refresh_cache (flaky_env rs cs page) stale_cache) = Inr True"
  by (simp add: run_defs example_defs)

lemma flaky_fetch_bad:
  "k \<in> set rs \<Longrightarrow>
   fst (fetch_trending_repos (flaky_env rs cs page) language (stale_cache\<lparr>requests := replicate k u\<rparr>))
     = Inl RequestException"
  by (simp add: run_defs fetch_trending_repos_def Let_def example_defs)

lemma flaky_fetch_good:
  "k \<notin> set rs \<Longrightarrow>
   fst (fetch_trending_repos (flaky_env rs cs (page_of [octo_entry])) language
          (stale_cache\<lparr>requests := replicate k u\<rparr>))
     = Inr [octo_record]"
  by (simp add: run_defs eval_defs example_defs)

text \<open>
  C3. A run that ends in an exception leaves the files as they were: \<open>save_cache\<close>
  was not called. In a refresh run, if the fetch of a variant raises, the run ends with
  that exception before the summarizer is invoked for that variant (no prompt is sent);
  if a summarizer call raises, the run ends with that exception before the next request
  is made; in each case the cache file is unchanged. The outcome of a fetch or of a
  summarizer call depends on the state only through the number of earlier requests or
  prompts, so the outcomes are stated at the initial state and at the states that the
  earlier calls leave.
\<close>

theorem refresh_failure_leaves_cache:
  "(fst (generate_daily_report e s) = Inl err
      \<longrightarrow> files (snd (generate_daily_report e s)) = files s) \<and>
   (fst (should_refresh_cache e s) = Inr True \<and> fst (fetch_trending_repos e None s) = Inl err
      \<longrightarrow> fst (generate_daily_report e s) = Inl err
          \<and> files (snd (generate_daily_report e s)) = files s
          \<and> requests (snd (generate_daily_report e s)) = requests s @ [trending_url None]
          \<and> prompts (snd (generate_daily_report e s)) = prompts s) \<and>
   (fst (should_refresh_cache e s) = Inr True \<and> fst (fetch_trending_repos e None s) = Inr all_trending
      \<and> fst (generate_repo_summary e all_trending s) = Inl err
      \<longrightarrow> fst (generate_daily_report e s) = Inl err
          \<and> files (snd (generate_daily_report e s)) = files s
          \<and> requests (snd (generate_daily_report e s)) = requests s @ [trending_url None]
          \<and> prompts (snd (generate_daily_report e s)) = prompts s @ [summary_prompt all_trending]) \<and>
   (fst (should_refresh_cache e s) = Inr True \<and> fst (fetch_trending_repos e None s) = Inr all_trending
      \<and> fst (generate_repo_summary e all_trending s) = Inr all_repos_summary
      \<and> fst (fetch_trending_repos e (Some (lit ''go'')) (snd (fetch_trending_repos e None s))) = Inl err
      \<longrightarrow> fst (generate_daily_report e s) = Inl err
          \<and> files (snd (generate_daily_report e s)) = files s
          \<and> requests (snd (generate_daily_report e s))
               = requests s @ [trending_url None, trending_url (Some (lit ''go''))]
          \<and> prompts (snd (generate_daily_report e s)) = prompts s @ [summary_prompt all_trending]) \<and>
   (fst (should_refresh_cache e s) = Inr True \<and> fst (fetch_trending_repos e None s) = Inr all_trending
      \<and> fst (generate_repo_summary e all_trending s) = Inr all_repos_summary
      \<and> fst (fetch_trending_repos e (Some (lit ''go'')) (snd (fetch_trending_repos e None s)))
            = Inr golang_trending
      \<and> fst (generate_repo_summary e golang_trending (snd (generate_repo_summary e all_trending s)))
            = Inl err
      \<longrightarrow> fst (generate_daily_report e s) = Inl err
          \<and> files (snd (generate_daily_report e s)) = files s
          \<and> prompts (snd (generate_daily_report e s))
               = prompts s @ [summary_prompt all_trending, summary_prompt golang_trending])"
  using failed_run_keeps_files [of e s err]
    refresh_fetch_all_fails [of e s err]
    refresh_summary_all_fails [of e s all_trending err]
    refresh_fetch_go_fails [of e s all_trending all_repos_summary err]
    refresh_summary_go_fails [of e s all_trending all_repos_summary golang_trending err]
  by blast


theorem refresh_failure_leaves_cache_witness:
  "fst (generate_daily_report (flaky_env [0] [] (page_of [octo_entry])) stale_cache) = Inl RequestException
   \<and> files (snd (generate_daily_report (flaky_env [0] [] (page_of [octo_entry])) stale_cache))
       = files stale_cache
   \<and> prompts (snd (generate_daily_report (flaky_env [0] [] (page_of [octo_entry])) stale_cache)) = []
   \<and> fst (generate_daily_report (flaky_env [] [0] (page_of [octo_entry])) stale_cache) = Inl APIError
   \<and> requests (snd (generate_daily_report (flaky_env [] [0] (page_of [octo_entry])) stale_cache))
       = [trending_url None]
   \<and> fst (generate_daily_report (flaky_env [1] [] (page_of [octo_entry])) stale_cache) = Inl RequestException
   \<and> prompts (snd (generate_daily_report (flaky_env [1] [] (page_of [octo_entry])) stale_cache))
       = [summary_prompt [octo_record]]
   \<and> fst (generate_daily_report (flaky_env [] [1] (page_of [octo_entry])) stale_cache) = Inl APIError
   \<and> files (snd (generate_daily_report (flaky_env [] [1] (page_of [octo_entry])) stale_cache))
       = files stale_cache"
proof -
  let ?P = "page_of [octo_entry]"
  have s0: "stale_cache\<lparr>requests := replicate 0 []\<rparr> = stale_cache"
    by (simp add: stale_cache_def cached_at_def)
  have s1: "snd (fetch_trending_repos e None stale_cache)
              = stale_cache\<lparr>requests := replicate 1 (trending_url None)\<rparr>" for e
    by (simp add: fetch_snd stale_cache_def cached_at_def)
  have bad0: "fst (fetch_trending_repos (flaky_env [0] [] ?P) None stale_cache) = Inl RequestException"
    using flaky_fetch_bad [of 0 "[0]" "[]" ?P None "[]"] s0 by simp
  have good0: "fst (fetch_trending_repos (flaky_env rs cs ?P) None stale_cache) = Inr [octo_record]"
    if "0 \<notin> set rs" for rs cs
    using flaky_fetch_good [of 0 rs cs None "[]"] that s0 by simp
  have bad1: "fst (fetch_trending_repos (flaky_env [1] [] ?P) (Some (lit ''go''))
                     (snd (fetch_trending_repos (flaky_env [1] [] ?P) None stale_cache)))
                = Inl RequestException"
    using flaky_fetch_bad [of 1 "[1]" "[]" ?P "Some (lit ''go'')" "trending_url None"] by (simp add: s1)
  have good1: "fst (fetch_trending_repos (flaky_env [] [1] ?P) (Some (lit ''go''))
                     (snd (fetch_trending_repos (flaky_env [] [1] ?P) None stale_cache)))
                = Inr [octo_record]"
    using flaky_fetch_good [of 1 "[]" "[1]" "Some (lit ''go'')" "trending_url None"] by (simp add: s1)
  have sum_bad0: "fst (generate_repo_summary (flaky_env [] [0] ?P) [octo_record] stale_cache) = Inl APIError"
    by (simp add: run_defs example_defs Let_def)
  have sum_good0: "fst (generate_repo_summary (flaky_env rs [1] ?P) [octo_record] stale_cache)
                     = Inr (lit ''Summary'')" for rs
    by (simp add: run_defs example_defs Let_def)
  have sum_good0': "fst (generate_repo_summary (flaky_env [1] [] ?P) [octo_record] stale_cache)
                     = Inr (lit ''Summary'')"
    by (simp add: run_defs example_defs Let_def)
  have sum_bad1: "fst (generate_repo_summary (flaky_env [] [1] ?P) [octo_record]
                         (snd (generate_repo_summary (flaky_env [] [1] ?P) [octo_record] stale_cache)))
                    = Inl APIError"
    by (simp add: run_defs example_defs Let_def)
  have empty: "prompts stale_cache = []" "requests stale_cache = []"
    by (simp_all add: stale_cache_def cached_at_def)
  show ?thesis
    using refresh_failure_leaves_cache
        [of "flaky_env [0] [] ?P" stale_cache RequestException "[]" "[]" "[]"]
      refresh_failure_leaves_cache
        [of "flaky_env [] [0] ?P" stale_cache APIError "[octo_record]" "[]" "[]"]
      refresh_failure_leaves_cache
        [of "flaky_env [1] [] ?P" stale_cache RequestException "[octo_record]" "lit ''Summary''" "[]"]
      refresh_failure_leaves_cache
        [of "flaky_env [] [1] ?P" stale_cache APIError "[octo_record]" "lit ''Summary''" "[octo_record]"]
      flaky_refresh bad0 good0 [of "[]" "[0]"] good0 [of "[1]" "[]"] good0 [of "[]" "[1]"]
      bad1 good1 sum_bad0 sum_good0 [of "[]"] sum_good0' sum_bad1 empty
    by simp
qed

section \<open>Rendering the sections\<close>

lemma str_split_not_Nil: "str_split sep s \<noteq> []"
  by (induction sep s rule: str_split.induct) (auto split: list.splits)

lemma str_join_split: "sep \<noteq> [] \<Longrightarrow> str_join sep (str_split sep s) = s"
proof (induction sep s rule: str_split.induct)
  case (1 sep)
  then show ?case by simp
next
  case (2 sep c cs)
  show ?case
  proof (cases "prefix sep (c # cs)")
    case True
    then obtain rest where rest: "c # cs = sep @ rest" by (auto simp: prefix_def)
    with \<open>sep \<noteq> []\<close> have drop: "rest = drop (length sep - 1) cs"
      by (cases sep) auto
    obtain p ps where ps: "str_split sep (drop (length sep - 1) cs) = p # ps"
      using str_split_not_Nil [of sep "drop (length sep - 1) cs"]
      by (cases "str_split sep (drop (length sep - 1) cs)") auto
    have "str_join sep (str_split sep (c # cs)) = str_join sep ([] # p # ps)"
      using True ps by simp
    also have "\<dots> = sep @ str_join sep (p # ps)" by simp
    also have "\<dots> = sep @ drop (length sep - 1) cs"
      using "2.IH"(1) [OF True \<open>sep \<noteq> []\<close>] ps by simp
    also have "\<dots> = c # cs" using rest drop by simp
    finally show ?thesis .
  next
    case False
    obtain p ps where ps: "str_split sep cs = p # ps"
      using str_split_not_Nil [of sep cs] by (cases "str_split sep cs") auto
    then have "str_join sep ((c # p) # ps) = c # str_join sep (p # ps)"
      by (cases ps) auto
    then show ?thesis using False 2 ps by simp
  qed
qed

lemma str_split_no_sep: "\<not> sublist sep s \<Longrightarrow> str_split sep s = [s]"
proof (induction s)
  case Nil
  then show ?case by simp
next
  case (Cons c cs)
  then have "\<not> prefix sep (c # cs)" "\<not> sublist sep cs"
    by (auto simp: sublist_Cons_right dest: prefix_imp_sublist)
  with Cons.IH show ?case by simp
qed

lemma console_sections:
  "console (foldl (\<lambda>st section. print_section section st) s0 sections)
     = console s0 @ concat (map section_prints sections)"
  by (induction sections arbitrary: s0)
     (auto simp: print_section_def section_prints_def console_print_def)

lemma console_banner:
  "\<exists>today. console (print_banner e s)
     = console s @ [ConsolePrint (Str [10]) None,
                    ConsolePrint (Panel (Text (128640 # lit '' GitHub Trending Repositories Report'')
                                           (lit ''bold magenta'')) None (lit ''bright_blue'')) None,
                    ConsolePrint (Text (lit ''Generated on: '' @ today) (lit ''italic cyan'')) None,
                    ConsolePrint (Str [10]) None]"
  by (simp add: print_banner_def console_print_def datetime_now_def Let_def)

lemma section_blocks_append: "section_blocks (xs @ ys) = section_blocks xs @ section_blocks ys"
  by (simp add: section_blocks_def List.map_filter_def)

lemma section_blocks_banner: "section_blocks (console (print_banner e s)) = section_blocks (console s)"
proof -
  from console_banner [of e s] obtain today where
    "console (print_banner e s)
       = console s @ [ConsolePrint (Str [10]) None,
                      ConsolePrint (Panel (Text (128640 # lit '' GitHub Trending Repositories Report'')
                                             (lit ''bold magenta'')) None (lit ''bright_blue'')) None,
                      ConsolePrint (Text (lit ''Generated on: '' @ today) (lit ''italic cyan'')) None,
                      ConsolePrint (Str [10]) None]"
    by blast
  then show ?thesis by (simp add: section_blocks_def List.map_filter_def)
qed

lemma section_blocks_sections:
  "section_blocks (concat (map section_prints sections))
     = map (\<lambda>section. title_and_content (strip section))
         (filter (\<lambda>section. strip section \<noteq> []) sections)"
  by (induction sections)
     (auto simp: section_blocks_def section_prints_def section_panel_def List.map_filter_def
        split: prod.splits)

lemma display_report_blocks:
  "section_blocks (console (display_report e report s))
     = section_blocks (console s)
       @ map (\<lambda>section. title_and_content (strip section))
           (filter (\<lambda>section. strip section \<noteq> []) (str_split (lit ''---'') report))"
  by (simp add: display_report_def console_sections section_blocks_append section_blocks_banner
        section_blocks_sections)

lemma title_and_content_lines:
  "\<exists>more_lines. str_split [10] x = fst (title_and_content x) # more_lines
                 \<and> snd (title_and_content x) = str_join [10] more_lines"
  using str_split_not_Nil [of "[10]" x]
  by (cases "str_split [10] x") (auto simp: title_and_content_def)


lemma no_delimiter_plain: "\<not> sublist (lit ''---'') plain_report"
  by (simp add: plain_report_def lit_def sublist_Cons_right)

text \<open>
  C5 (as amended). For every body passed to \<open>display_report\<close>: the titled blocks it
  renders are, in order, one for every delimiter-separated section that is not blank (not
  empty once surrounding whitespace is stripped), so K such sections give exactly K blocks;
  each block is titled with the first line of the stripped section and contains its
  remaining lines, joined by newlines, as content. If the body contains no delimiter
  \<open>---\<close> and is not blank, exactly one block is rendered, and its title line and
  content lines together are the body stripped of surrounding whitespace.
\<close>

theorem display_report_renders_sections:
  "section_blocks (console (display_report e report s))
     = section_blocks (console s)
       @ map (\<lambda>section. title_and_content (strip section))
           (filter (\<lambda>section. strip section \<noteq> []) (str_split (lit ''---'') report))
   \<and> (\<exists>more_lines. str_split [10] x = fst (title_and_content x) # more_lines
                      \<and> snd (title_and_content x) = str_join [10] more_lines)
   \<and> (\<not> sublist (lit ''---'') report \<and> strip report \<noteq> [] \<longrightarrow>
        (\<exists>title more_lines.
            section_blocks (console (display_report e report s))
              = section_blocks (console s) @ [(title, str_join [10] more_lines)]
            \<and> str_join [10] (title # more_lines) = strip report))"
proof (intro conjI impI)
  show "section_blocks (console (display_report e report s))
          = section_blocks (console s)
            @ map (\<lambda>section. title_and_content (strip section))
                (filter (\<lambda>section. strip section \<noteq> []) (str_split (lit ''---'') report))"
    by (rule display_report_blocks)
next
  show "\<exists>more_lines. str_split [10] x = fst (title_and_content x) # more_lines
                      \<and> snd (title_and_content x) = str_join [10] more_lines"
    by (rule title_and_content_lines)
next
  assume a: "\<not> sublist (lit ''---'') report \<and> strip report \<noteq> []"
  then have one: "str_split (lit ''---'') report = [report]" by (simp add: str_split_no_sep)
  from title_and_content_lines [of "strip report"] obtain more_lines where
    l: "str_split [10] (strip report) = fst (title_and_content (strip report)) # more_lines"
       "snd (title_and_content (strip report)) = str_join [10] more_lines"
    by blast
  have "str_join [10] (str_split [10] (strip report)) = strip report"
    by (rule str_join_split) simp
  then have whole: "str_join [10] (fst (title_and_content (strip report)) # more_lines) = strip report"
    using l(1) by simp
  have "section_blocks (console (display_report e report s))
          = section_blocks (console s) @ [title_and_content (strip report)]"
    using a one by (simp add: display_report_blocks)
  also have "title_and_content (strip report)
               = (fst (title_and_content (strip report)), str_join [10] more_lines)"
    using l(2) by (metis prod.collapse)
  finally show "\<exists>title more_lines.
            section_blocks (console (display_report e report s))
              = section_blocks (console s) @ [(title, str_join [10] more_lines)]
            \<and> str_join [10] (title # more_lines) = strip report"
    using whole by blast
qed

theorem display_report_renders_sections_witness:
  "\<not> sublist (lit ''---'') plain_report \<and> strip plain_report \<noteq> []
   \<and> section_blocks (console (display_report (fixed_env 0 (NavigableString [])) plain_report no_cache))
       = [(lit ''Title'', lit ''line one'' @ [10] @ lit ''line two'')]"
proof -
  have h: "\<not> sublist (lit ''---'') plain_report \<and> strip plain_report \<noteq> []"
    using no_delimiter_plain by (simp add: plain_report_def strip_def isspace_def lit_def)
  have run: "section_blocks (console (display_report (fixed_env 0 (NavigableString [])) plain_report no_cache))
               = [(lit ''Title'', lit ''line one'' @ [10] @ lit ''line two'')]"
    by (simp add: render_defs fixed_env_def no_cache_def)
  from display_report_renders_sections
         [of "fixed_env 0 (NavigableString [])" plain_report no_cache "[]"] h
  obtain title more_lines where
    "section_blocks (console (display_report (fixed_env 0 (NavigableString [])) plain_report no_cache))
       = section_blocks (console no_cache) @ [(title, str_join [10] more_lines)]"
    by blast
  with h run show ?thesis by simp
qed

text \<open>
  C5 as stated fails: a body that is a single space is non-empty and has no delimiter, yet
  no block is rendered; and the body \<open>a--- ---b\<close> has three non-empty sections but
  two blocks.
\<close>

theorem display_report_blank_sections:
  "[32] \<noteq> ([] :: pystr) \<and> \<not> sublist (lit ''---'') [32]
   \<and> section_blocks (console (display_report (fixed_env 0 (NavigableString [])) [32] no_cache)) = []
   \<and> str_split (lit ''---'') (lit ''a--- ---b'') = [lit ''a'', lit '' '', lit ''b'']
   \<and> section_blocks (console (display_report (fixed_env 0 (NavigableString [])) (lit ''a--- ---b'') no_cache))
       = [(lit ''a'', []), (lit ''b'', [])]"
  by (simp add: render_defs fixed_env_def no_cache_def sublist_Cons_right)

section \<open>The loop bounds of the scanner\<close>

text \<open>
  Every value that the scanner reads is at least one character long, so a loop that is
  entered with the length of the remaining text never stops for want of iterations: any
  larger bound gives the same result.
\<close>

lemma skip_ws_length: "length (skip_ws s) \<le> length s"
  by (simp add: skip_ws_def length_dropWhile_le)

lemma scanstring_shorter: "scanstring s = Some (x, r) \<Longrightarrow> length r < length s"
proof (induction s arbitrary: x r rule: scanstring.induct)
  case 1
  then show ?case by simp
next
  case (2 c cs)
  show ?case
  proof (cases "c = 34")
    case True
    then show ?thesis using 2 by simp
  next
    case False
    show ?thesis
    proof (cases "c = 92")
      case True
      then obtain ch n where e: "scan_escape cs = Some (ch, n)"
        using 2(3) by (auto split: option.splits)
      then obtain y where "scanstring (drop n cs) = Some (y, r)"
        using 2(3) True by (auto simp: append_char_def split: option.splits)
      from "2.IH"(1) [OF False True e [THEN sym, THEN sym] refl this] have "length r < length (drop n cs)" .
      then show ?thesis by simp
    next
      case c92: False
      then have ge: "\<not> c < 32" using 2(3) False by (auto split: if_splits)
      then obtain y where "scanstring cs = Some (y, r)"
        using 2(3) False c92 by (auto simp: append_char_def split: option.splits)
      from "2.IH"(2) [OF False c92 ge this] show ?thesis by simp
    qed
  qed
qed


lemma dropWhile_bounds:
  "length (dropWhile P xs) \<le> length xs"
  "length (dropWhile P xs) \<le> Suc (length xs)"
  "length (dropWhile P xs) < Suc (length xs)"
  "length (dropWhile P xs) < Suc (Suc (length xs))"
  using length_dropWhile_le [of P xs] by simp_all

lemma match_number_shorter: "match_number s = Some (v, r) \<Longrightarrow> length r < length s"
proof -
  assume a: "match_number s = Some (v, r)"
  then obtain i r1 where i: "match_integer s = Some (i, r1)"
    by (auto simp: match_number_def split: option.splits)
  have r1: "length r1 < length s"
    using i
    by (cases s; cases "drop (length (if take 1 s = [45] then [45::nat] else [])) s")
       (auto simp: match_integer_def Let_def dropWhile_bounds split: if_splits)
  obtain f r2 where f: "match_frac r1 = (f, r2)" by (cases "match_frac r1")
  have r2: "length r2 \<le> length r1"
    using f by (cases r1) (auto simp: match_frac_def dropWhile_bounds split: if_splits)
  obtain x r3 where x: "match_exp r2 = (x, r3)" by (cases "match_exp r2")
  have r3: "length r3 \<le> length r2"
  proof (cases r2)
    case Nil
    then show ?thesis using x by (simp add: match_exp_def)
  next
    case (Cons c t)
    have "length (dropWhile is_digit (drop k t)) \<le> Suc (length t)" for k
      using length_dropWhile_le [of is_digit "drop k t"] by simp
    then show ?thesis
      using x Cons by (auto simp: match_exp_def Let_def dropWhile_bounds split: if_splits)
  qed
  have "r = r3" using a i f x by (auto simp: match_number_def split: if_splits sum.splits)
  then show ?thesis using r1 r2 r3 by simp
qed

lemma scan_constant_shorter: "scan_constant s = Inr (v, r) \<Longrightarrow> length r < length s"
  by (auto simp: scan_constant_def lit_def prefix_def split: if_splits option.splits sum.splits
        dest: match_number_shorter)


lemma skip_ws_shorter: "length r < length (skip_ws s) \<Longrightarrow> length r < length s"
  using skip_ws_length [of s] by simp

lemma skip_ws_Cons_shorter: "skip_ws s = c # r \<Longrightarrow> length r < length s"
  using skip_ws_length [of s] by simp

lemma scan_progress:
  "scan_once d s = Inr (v, r) \<Longrightarrow> length r < length s"
  "JSONObject_loop d n s = Inr (ps, r) \<Longrightarrow> length r < length s"
  "JSONArray_loop d n s = Inr (vs, r) \<Longrightarrow> length r < length s"
proof (induction d s and d n s and d n s arbitrary: v r and ps r and vs r
        rule: scan_once_JSONObject_loop_JSONArray_loop.induct)
  case (1 depth)
  then show ?case by simp
next
  case (2 depth nextchar cs)
  show ?case
  proof (cases "nextchar = 34")
    case True
    then show ?thesis
      using 2(3) by (auto split: option.splits dest: scanstring_shorter)
  next
    case n34: False
    show ?thesis
    proof (cases "nextchar = 123")
      case True
      then obtain depth' where d: "depth = Suc depth'"
        using 2(3) by (cases depth) auto
      obtain c rest where ws: "skip_ws cs = c # rest"
        using 2(3) True d by (cases "skip_ws cs") auto
      show ?thesis
      proof (cases "c = 125")
        case c: True
        then show ?thesis using 2(3) True d ws skip_ws_Cons_shorter [OF ws] by auto
      next
        case c: False
        then obtain pairs where
          "JSONObject_loop depth' (length cs) (skip_ws cs) = Inr (pairs, r)"
          using 2(3) True d ws by (auto split: sum.splits)
        from "2.IH"(1) [OF n34 True d ws c this] show ?thesis
          using skip_ws_length [of cs] by simp
      qed
    next
      case n123: False
      show ?thesis
      proof (cases "nextchar = 91")
        case True
        then obtain depth' where d: "depth = Suc depth'"
          using 2(3) n123 by (cases depth) auto
        obtain c rest where ws: "skip_ws cs = c # rest"
          using 2(3) True d by (cases "skip_ws cs") auto
        show ?thesis
        proof (cases "c = 93")
          case c: True
          then show ?thesis using 2(3) True d ws skip_ws_Cons_shorter [OF ws] by auto
        next
          case c: False
          then obtain vals where
            "JSONArray_loop depth' (length cs) (skip_ws cs) = Inr (vals, r)"
            using 2(3) True d ws by (auto split: sum.splits)
          from "2.IH"(2) [OF n34 n123 True d ws c this] show ?thesis
            using skip_ws_length [of cs] by simp
        qed
      next
        case False
        then show ?thesis
          using 2(3) n34 n123 scan_constant_shorter [of "nextchar # cs" v r] by simp
      qed
    qed
  qed
next
  case (3 depth s)
  then show ?case by simp
next
  case (4 depth n s)
  from 4(3) obtain s1 where s: "s = 34 # s1"
    by (cases s) (auto split: if_splits)
  from 4(3) s obtain key s2 where k: "scanstring s1 = Some (key, s2)"
    by (auto split: option.splits)
  from 4(3) s k obtain s3 where c: "skip_ws s2 = 58 # s3"
    by (cases "skip_ws s2") (auto split: if_splits)
  from 4(3) s k c obtain val s4 where v: "scan_once depth (skip_ws s3) = Inr (val, s4)"
    by (auto split: sum.splits)
  from 4(3) s k c v obtain nextchar s5 where n: "skip_ws s4 = nextchar # s5"
    by (cases "skip_ws s4") auto
  have l2: "length s2 < length s1" using k by (rule scanstring_shorter)
  have l3: "length s3 < length s2" using c by (rule skip_ws_Cons_shorter)
  have l4: "length s4 < length s3"
    using "4.IH"(1) [OF s _ k [THEN sym, THEN sym] refl c _ v] skip_ws_length [of s3] by simp
  have l5: "length s5 < length s4" using n by (rule skip_ws_Cons_shorter)
  show ?case
  proof (cases "nextchar = 125")
    case True
    then show ?thesis using 4(3) s k c v n l2 l3 l4 l5 by simp
  next
    case False
    then have comma: "nextchar = 44" using 4(3) s k c v n by (auto split: if_splits)
    then obtain pairs where "JSONObject_loop depth n (skip_ws s5) = Inr (pairs, r)"
      using 4(3) s k c v n False by (auto split: sum.splits)
    from "4.IH"(2) [OF s _ k [THEN sym, THEN sym] refl c _ v [THEN sym, THEN sym] refl n False _ this]
    have "length r < length (skip_ws s5)" using comma by simp
    then show ?thesis using skip_ws_length [of s5] s l2 l3 l4 l5 by simp
  qed
next
  case (5 depth s)
  then show ?case by simp
next
  case (6 depth n s)
  from 6(3) obtain val s1 where v: "scan_once depth s = Inr (val, s1)"
    by (auto split: sum.splits)
  from 6(3) v obtain nextchar s2 where n: "skip_ws s1 = nextchar # s2"
    by (cases "skip_ws s1") auto
  have l1: "length s1 < length s" using "6.IH"(1) [OF v] .
  have l2: "length s2 < length s1" using n by (rule skip_ws_Cons_shorter)
  show ?case
  proof (cases "nextchar = 93")
    case True
    then show ?thesis using 6(3) v n l1 l2 by simp
  next
    case False
    then have comma: "nextchar = 44" using 6(3) v n by (auto split: if_splits)
    then obtain vals where "JSONArray_loop depth n (skip_ws s2) = Inr (vals, r)"
      using 6(3) v n False by (auto split: sum.splits)
    from "6.IH"(2) [OF v [THEN sym, THEN sym] refl n False _ this]
    have "length r < length (skip_ws s2)" using comma by simp
    then show ?thesis using skip_ws_length [of s2] l1 l2 by simp
  qed
qed


lemma object_bound_irrelevant:
  "length s \<le> n \<Longrightarrow> length s \<le> m \<Longrightarrow> JSONObject_loop d n s = JSONObject_loop d m s"
proof (induction n arbitrary: m s)
  case 0
  then show ?case by (cases m) simp_all
next
  case (Suc n)
  show ?case
  proof (cases m)
    case 0
    then show ?thesis using Suc.prems by simp
  next
    case (Suc m')
    have step: "JSONObject_loop d n (skip_ws s5) = JSONObject_loop d m' (skip_ws s5)"
      if "s = 34 # s1" "scanstring s1 = Some (key, s2)" "skip_ws s2 = 58 # s3"
        "scan_once d (skip_ws s3) = Inr (v, s4)" "skip_ws s4 = 44 # s5"
      for s1 key s2 s3 v s4 s5
    proof -
      have "length s2 < length s1" using that(2) by (rule scanstring_shorter)
      moreover have "length s3 < length s2" using that(3) by (rule skip_ws_Cons_shorter)
      moreover have "length s4 < length s3"
        using scan_progress(1) [OF that(4)] skip_ws_length [of s3] by simp
      moreover have "length s5 < length s4" using that(5) by (rule skip_ws_Cons_shorter)
      ultimately have "length (skip_ws s5) \<le> n" "length (skip_ws s5) \<le> m'"
        using Suc.prems Suc that(1) skip_ws_length [of s5] by simp_all
      then show ?thesis by (rule Suc.IH)
    qed
    show ?thesis
      unfolding Suc
      by (auto simp: step split: list.splits option.splits sum.splits)
  qed
qed

lemma array_bound_irrelevant:
  "length s \<le> n \<Longrightarrow> length s \<le> m \<Longrightarrow> JSONArray_loop d n s = JSONArray_loop d m s"
proof (induction n arbitrary: m s)
  case 0
  then show ?case by (cases m) simp_all
next
  case (Suc n)
  show ?case
  proof (cases m)
    case 0
    then show ?thesis using Suc.prems by simp
  next
    case (Suc m')
    have step: "JSONArray_loop d n (skip_ws s2) = JSONArray_loop d m' (skip_ws s2)"
      if "scan_once d s = Inr (v, s1)" "skip_ws s1 = 44 # s2" for v s1 s2
    proof -
      have "length s1 < length s" using that(1) by (rule scan_progress(1))
      moreover have "length s2 < length s1" using that(2) by (rule skip_ws_Cons_shorter)
      ultimately have "length (skip_ws s2) \<le> n" "length (skip_ws s2) \<le> m'"
        using Suc.prems Suc skip_ws_length [of s2] by simp_all
      then show ?thesis by (rule Suc.IH)
    qed
    show ?thesis
      unfolding Suc
      by (auto simp: step split: list.splits sum.splits)
  qed
qed

section \<open>Saving and loading the cache\<close>

lemma hexval_hexdigit: "d < 16 \<Longrightarrow> hexval (hexdigit d) = Some d"
  by (auto simp: hexval_def hexdigit_def)

lemma hex_digits_sum:
  fixes n :: nat
  assumes "n < 65536"
  shows "n div 4096 mod 16 * 4096 + n div 256 mod 16 * 256 + n div 16 mod 16 * 16 + n mod 16 = n"
proof -
  define q1 where "q1 = n div 16"
  define q2 where "q2 = q1 div 16"
  define q3 where "q3 = q2 div 16"
  have d256: "n div 256 = q2" unfolding q2_def q1_def by (simp add: div_mult2_eq)
  have d4096: "n div 4096 = q3" unfolding q3_def q2_def q1_def by (simp add: div_mult2_eq)
  have "q3 < 16" using assms unfolding d4096 [symmetric] by simp
  then have m3: "q3 mod 16 = q3" by simp
  have e1: "n = q1 * 16 + n mod 16" unfolding q1_def by simp
  have e2: "q1 = q2 * 16 + q1 mod 16" unfolding q2_def by simp
  have e3: "q2 = q3 * 16 + q2 mod 16" unfolding q3_def by simp
  have "n div 4096 mod 16 * 4096 + n div 256 mod 16 * 256 + n div 16 mod 16 * 16 + n mod 16
          = q3 * 4096 + q2 mod 16 * 256 + q1 mod 16 * 16 + n mod 16"
    by (simp add: d256 d4096 m3 q1_def [symmetric])
  also have "\<dots> = (q3 * 16 + q2 mod 16) * 256 + q1 mod 16 * 16 + n mod 16" by simp
  also have "\<dots> = q2 * 256 + q1 mod 16 * 16 + n mod 16" using e3 by simp
  also have "\<dots> = (q2 * 16 + q1 mod 16) * 16 + n mod 16" by simp
  also have "\<dots> = q1 * 16 + n mod 16" using e2 by simp
  also have "\<dots> = n" using e1 by simp
  finally show ?thesis .
qed

lemma decode_hex4: "n < 65536 \<Longrightarrow> decode_uXXXX (hex4 n @ t) = Some n"
  using hex_digits_sum [of n]
  by (simp add: decode_uXXXX_def hex4_def hexval_hexdigit)


lemma length_hex4: "length (hex4 n) = 4"
  by (simp add: hex4_def)

lemma drop_hex4:
  "drop 4 (hex4 n @ t) = t"
  "drop 6 (hex4 n @ t) = drop 2 t"
  by (simp_all add: length_hex4)

lemma scan_escape_unicode:
  "decode_uXXXX rest = Some uni \<Longrightarrow>
   scan_escape (117 # rest)
     = (if is_high_surrogate uni \<and> take 2 (drop 4 rest) = [92, 117]
        then (case decode_uXXXX (drop 6 rest) of
                None \<Rightarrow> None
              | Some uni2 \<Rightarrow>
                  if is_low_surrogate uni2
                  then Some (65536 + ((uni - 55296) * 1024 + (uni2 - 56320)), 11)
                  else Some (uni, 5))
        else Some (uni, 5))"
  by (auto simp: scan_escape_def is_high_surrogate_def is_low_surrogate_def split: option.splits)

lemma scan_escape_u:
  assumes "n < 65536"
    and "is_high_surrogate n \<and> take 2 t = [92, 117]
           \<longrightarrow> (\<exists>u. decode_uXXXX (drop 2 t) = Some u \<and> \<not> is_low_surrogate u)"
  shows "scan_escape (117 # hex4 n @ t) = Some (n, 5)"
proof -
  have d: "decode_uXXXX (hex4 n @ t) = Some n" using assms(1) by (rule decode_hex4)
  show ?thesis
  proof (cases "is_high_surrogate n \<and> take 2 t = [92, 117]")
    case True
    with assms(2) obtain u where u: "decode_uXXXX (drop 2 t) = Some u" "\<not> is_low_surrogate u"
      by blast
    show ?thesis
      unfolding scan_escape_unicode [OF d] drop_hex4 using True u by simp
  next
    case False
    then show ?thesis
      unfolding scan_escape_unicode [OF d] drop_hex4 by auto
  qed
qed

lemma surrogates_of:
  fixes c :: nat
  assumes "65536 \<le> c" "c < 1114112"
  defines "hi \<equiv> 55296 + (c - 65536) div 1024 mod 1024"
    and "lo \<equiv> 56320 + (c - 65536) mod 1024"
  shows "is_high_surrogate hi" "is_low_surrogate lo" "\<not> is_low_surrogate hi"
    "65536 + ((hi - 55296) * 1024 + (lo - 56320)) = c"
proof -
  have small: "(c - 65536) div 1024 < 1024" using assms(1,2) by simp
  then have m: "(c - 65536) div 1024 mod 1024 = (c - 65536) div 1024" by simp
  show "is_high_surrogate hi" using small by (simp add: hi_def m is_high_surrogate_def)
  show "\<not> is_low_surrogate hi" using small by (simp add: hi_def m is_low_surrogate_def)
  have "(c - 65536) mod 1024 < 1024" by simp
  then show "is_low_surrogate lo" by (simp add: lo_def is_low_surrogate_def)
  have "(c - 65536) div 1024 * 1024 + (c - 65536) mod 1024 = c - 65536" by simp
  then show "65536 + ((hi - 55296) * 1024 + (lo - 56320)) = c"
    using assms(1) by (simp add: hi_def lo_def m)
qed

lemma scan_escape_pair:
  assumes "65536 \<le> c" "c < 1114112"
  shows "scan_escape (117 # hex4 (55296 + (c - 65536) div 1024 mod 1024)
                        @ 92 # 117 # hex4 (56320 + (c - 65536) mod 1024) @ t) = Some (c, 11)"
proof -
  define hi where "hi = 55296 + (c - 65536) div 1024 mod 1024"
  define lo where "lo = 56320 + (c - 65536) mod 1024"
  note s = surrogates_of [OF assms, folded hi_def lo_def]
  have hi: "hi < 65536" using s(1) by (simp add: is_high_surrogate_def)
  have lo: "lo < 65536" using s(2) by (simp add: is_low_surrogate_def)
  have d1: "decode_uXXXX (hex4 hi @ 92 # 117 # hex4 lo @ t) = Some hi"
    using hi by (rule decode_hex4)
  have d2: "decode_uXXXX (hex4 lo @ t) = Some lo"
    using lo by (rule decode_hex4)
  have dr: "drop 4 (hex4 hi @ 92 # 117 # hex4 lo @ t) = 92 # 117 # hex4 lo @ t"
    "drop 6 (hex4 hi @ 92 # 117 # hex4 lo @ t) = hex4 lo @ t"
    by (simp_all add: length_hex4)
  have "scan_escape (117 # hex4 hi @ 92 # 117 # hex4 lo @ t) = Some (c, 11)"
    unfolding scan_escape_unicode [OF d1] dr d2 using s by simp
  then show ?thesis unfolding hi_def lo_def .
qed


lemma escape_ascii_cases [case_names plain simple unicode pair]:
  obtains (plain) "32 \<le> c" "c \<noteq> 34" "c \<noteq> 92" "escape_ascii c = [c]"
  | (simple) x where "backslash x = Some c" "x \<noteq> 117" "escape_ascii c = [92, x]"
  | (unicode) "c < 65536" "escape_ascii c = 92 # 117 # hex4 c"
  | (pair) "65536 \<le> c"
      "escape_ascii c = 92 # 117 # hex4 (55296 + (c - 65536) div 1024 mod 1024)
                         @ 92 # 117 # hex4 (56320 + (c - 65536) mod 1024)"
proof -
  consider "c = 92" | "c = 34" | "c \<noteq> 92" "c \<noteq> 34" "32 \<le> c" "c \<le> 126"
    | "c = 8" | "c = 12" | "c = 10" | "c = 13" | "c = 9"
    | "c \<notin> {92, 34, 8, 12, 10, 13, 9}" "\<not> (32 \<le> c \<and> c \<le> 126)" "c < 65536"
    | "\<not> (32 \<le> c \<and> c \<le> 126)" "65536 \<le> c"
    by fastforce
  then show thesis
  proof cases
    case 1
    then show ?thesis using simple [of 92] by (simp add: backslash_def escape_ascii_def)
  next
    case 2
    then show ?thesis using simple [of 34] by (simp add: backslash_def escape_ascii_def)
  next
    case 3
    then show ?thesis using plain by (simp add: escape_ascii_def)
  next
    case 4
    then show ?thesis using simple [of 98] by (simp add: backslash_def escape_ascii_def)
  next
    case 5
    then show ?thesis using simple [of 102] by (simp add: backslash_def escape_ascii_def)
  next
    case 6
    then show ?thesis using simple [of 110] by (simp add: backslash_def escape_ascii_def)
  next
    case 7
    then show ?thesis using simple [of 114] by (simp add: backslash_def escape_ascii_def)
  next
    case 8
    then show ?thesis using simple [of 116] by (simp add: backslash_def escape_ascii_def)
  next
    case 9
    then show ?thesis using unicode by (simp add: escape_ascii_def escape_u_def)
  next
    case 10
    then have "escape_ascii c = escape_u (55296 + (c - 65536) div 1024 mod 1024)
                                @ escape_u (56320 + (c - 65536) mod 1024)"
      by (simp add: escape_ascii_def)
    then show ?thesis using pair 10 by (simp add: escape_u_def)
  qed
qed


lemma escape_starts_unicode:
  assumes "take 2 (escape_ascii c @ t) = [92, 117]" "c < 1114112" "\<not> is_low_surrogate c"
  shows "\<exists>u. decode_uXXXX (drop 2 (escape_ascii c @ t)) = Some u \<and> \<not> is_low_surrogate u"
proof (cases c rule: escape_ascii_cases)
  case plain
  then show ?thesis using assms(1) by simp
next
  case (simple x)
  then show ?thesis using assms(1) by simp
next
  case unicode
  then show ?thesis using assms(3) decode_hex4 [of c t] by simp
next
  case pair
  let ?hi = "55296 + (c - 65536) div 1024 mod 1024"
  let ?lo = "56320 + (c - 65536) mod 1024"
  note s = surrogates_of [OF pair(1) assms(2)]
  have "?hi < 65536" using s(1) by (simp add: is_high_surrogate_def)
  then have "decode_uXXXX (hex4 ?hi @ 92 # 117 # hex4 ?lo @ t) = Some ?hi" by (rule decode_hex4)
  moreover have "drop 2 (escape_ascii c @ t) = hex4 ?hi @ 92 # 117 # hex4 ?lo @ t"
    unfolding pair(2) by simp
  ultimately show ?thesis using s(3) by (simp only:) blast
qed

lemma scanstring_escape_ascii:
  assumes "c < 1114112"
    and "is_high_surrogate c \<and> take 2 t = [92, 117]
           \<longrightarrow> (\<exists>u. decode_uXXXX (drop 2 t) = Some u \<and> \<not> is_low_surrogate u)"
  shows "scanstring (escape_ascii c @ t) = append_char c (scanstring t)"
proof (cases c rule: escape_ascii_cases)
  case plain
  then show ?thesis by simp
next
  case (simple x)
  then have "scan_escape (x # t) = Some (c, 1)" by (simp add: scan_escape_def)
  then show ?thesis unfolding simple(3) by simp
next
  case unicode
  have "scan_escape (117 # hex4 c @ t) = Some (c, 5)"
    using unicode(1) assms(2) by (rule scan_escape_u)
  moreover have "drop 5 (117 # hex4 c @ t) = t" by (simp add: length_hex4)
  ultimately show ?thesis unfolding unicode(2) by simp
next
  case pair
  let ?hi = "55296 + (c - 65536) div 1024 mod 1024"
  let ?lo = "56320 + (c - 65536) mod 1024"
  have "scan_escape (117 # hex4 ?hi @ 92 # 117 # hex4 ?lo @ t) = Some (c, 11)"
    using pair(1) assms(1) by (rule scan_escape_pair)
  moreover have "drop 11 (117 # hex4 ?hi @ 92 # 117 # hex4 ?lo @ t) = t"
    by (simp add: length_hex4)
  ultimately have "scanstring (92 # 117 # hex4 ?hi @ 92 # 117 # hex4 ?lo @ t)
                     = append_char c (scanstring t)"
    by (simp only: scanstring.simps) simp
  then show ?thesis unfolding pair(2) by simp
qed

lemma scanstring_encoded:
  assumes "code_points s" "no_surrogate_pair s"
  shows "scanstring (concat (map escape_ascii s) @ 34 # rest) = Some (s, rest)"
  using assms
proof (induction s)
  case Nil
  then show ?case by simp
next
  case (Cons c s)
  let ?t = "concat (map escape_ascii s) @ 34 # rest"
  have c: "c < 1114112" and s: "code_points s" using Cons.prems(1) by (simp_all add: code_points_def)
  have nsp: "no_surrogate_pair s" using Cons.prems(2) by (cases s) simp_all
  have follow: "is_high_surrogate c \<and> take 2 ?t = [92, 117]
                  \<longrightarrow> (\<exists>u. decode_uXXXX (drop 2 ?t) = Some u \<and> \<not> is_low_surrogate u)"
  proof (cases s)
    case Nil
    then show ?thesis by simp
  next
    case (Cons c' s')
    show ?thesis
    proof
      assume a: "is_high_surrogate c \<and> take 2 ?t = [92, 117]"
      then have "\<not> is_low_surrogate c'" using Cons.prems(2) Cons by simp
      moreover have "c' < 1114112" using s Cons by (simp add: code_points_def)
      moreover have "?t = escape_ascii c' @ (concat (map escape_ascii s') @ 34 # rest)"
        using Cons by simp
      ultimately show "\<exists>u. decode_uXXXX (drop 2 ?t) = Some u \<and> \<not> is_low_surrogate u"
        using a escape_starts_unicode [of c' "concat (map escape_ascii s') @ 34 # rest"] by simp
    qed
  qed
  have "scanstring (escape_ascii c @ ?t) = append_char c (scanstring ?t)"
    using c follow by (rule scanstring_escape_ascii)
  also have "\<dots> = Some (c # s, rest)"
    using Cons.IH [OF s nsp] by (simp add: append_char_def)
  finally show ?case by simp
qed


lemma scan_once_string:
  assumes "code_points s" "no_surrogate_pair s"
  shows "scan_once depth (encode_basestring_ascii s @ rest) = Inr (JString s, rest)"
  using scanstring_encoded [OF assms, of rest]
  by (simp add: encode_basestring_ascii_def)

lemma skip_ws_simps:
  "skip_ws [] = []"
  "skip_ws (c # cs) = (if is_ws c then skip_ws cs else c # cs)"
  by (simp_all add: skip_ws_def)

lemma JSONObject_loop_item:
  assumes "code_points k" "no_surrogate_pair k" "code_points v" "no_surrogate_pair v"
  shows "JSONObject_loop depth (Suc n)
           (encode_basestring_ascii k @ [58, 32] @ encode_basestring_ascii v @ rest)
     = (case skip_ws rest of
          [] \<Rightarrow> Inl JSONDecodeError
        | nextchar # s5 \<Rightarrow>
            if nextchar = 125 then Inr ([(k, JString v)], s5)
            else if nextchar \<noteq> 44 then Inl JSONDecodeError
            else (case JSONObject_loop depth n (skip_ws s5) of
                    Inl err \<Rightarrow> Inl err
                  | Inr (pairs, rest') \<Rightarrow> Inr ((k, JString v) # pairs, rest')))"
proof -
  have key: "scanstring (concat (map escape_ascii k) @ 34 # 58 # 32 # encode_basestring_ascii v @ rest)
               = Some (k, 58 # 32 # encode_basestring_ascii v @ rest)"
    using assms(1,2) by (rule scanstring_encoded)
  have val: "scan_once depth (encode_basestring_ascii v @ rest) = Inr (JString v, rest)"
    using assms(3,4) by (rule scan_once_string)
  have start: "encode_basestring_ascii k @ [58, 32] @ encode_basestring_ascii v @ rest
                 = 34 # concat (map escape_ascii k) @ 34 # 58 # 32 # encode_basestring_ascii v @ rest"
    by (simp add: encode_basestring_ascii_def)
  have v_start: "skip_ws (encode_basestring_ascii v @ rest) = encode_basestring_ascii v @ rest"
    by (simp add: skip_ws_simps is_ws_def encode_basestring_ascii_def)
  show ?thesis
    unfolding start
    by (simp add: key val v_start skip_ws_simps is_ws_def del: scan_once.simps)
qed


lemma good_keys:
  "code_points (lit ''timestamp'')" "no_surrogate_pair (lit ''timestamp'')"
  "code_points (lit ''full_report'')" "no_surrogate_pair (lit ''full_report'')"
  by (simp_all add: lit_def code_points_def is_high_surrogate_def)

lemma skip_ws_encoded: "skip_ws (encode_basestring_ascii s @ rest) = encode_basestring_ascii s @ rest"
  by (simp add: skip_ws_simps is_ws_def encode_basestring_ascii_def)

lemma json_loads_cache_data:
  assumes "code_points ts" "no_surrogate_pair ts" "code_points fr" "no_surrogate_pair fr"
  shows "json_loads (Suc d) (iterencode 0 (cache_data ts fr)) = Inr (cache_data ts fr)"
proof -
  define k1 where "k1 = lit ''timestamp''"
  define k2 where "k2 = lit ''full_report''"
  define tail2 where "tail2 = encode_basestring_ascii k2 @ [58, 32] @ encode_basestring_ascii fr @ [10, 125]"
  define tail1 where "tail1 = encode_basestring_ascii k1 @ [58, 32] @ encode_basestring_ascii ts
                                @ (44 # 10 # 32 # 32 # 32 # 32 # tail2)"
  have k: "code_points k1" "no_surrogate_pair k1" "code_points k2" "no_surrogate_pair k2" "k1 \<noteq> k2"
    using good_keys by (simp_all add: k1_def k2_def lit_def)
  have enc: "iterencode 0 (cache_data ts fr) = 123 # 10 # 32 # 32 # 32 # 32 # tail1"
    by (simp add: cache_data_def tail1_def tail2_def k1_def k2_def newline_indent_def
          eval_nat_numeral)
  have ws2: "skip_ws tail2 = tail2" unfolding tail2_def by (rule skip_ws_encoded)
  have loop2: "JSONObject_loop d (Suc n) tail2 = Inr ([(k2, JString fr)], [])" for d n
  proof -
    note JSONObject_loop_item [OF k(3,4) assms(3,4), of d n "[10, 125]", folded tail2_def]
    also have "(case skip_ws [10, 125] of
                  [] \<Rightarrow> Inl JSONDecodeError
                | nextchar # s5 \<Rightarrow>
                    if nextchar = 125 then Inr ([(k2, JString fr)], s5)
                    else if nextchar \<noteq> 44 then Inl JSONDecodeError
                    else (case JSONObject_loop d n (skip_ws s5) of
                            Inl err \<Rightarrow> Inl err
                          | Inr (pairs, rest') \<Rightarrow> Inr ((k2, JString fr) # pairs, rest')))
               = Inr ([(k2, JString fr)], [])"
      by (simp add: skip_ws_simps is_ws_def del: JSONObject_loop.simps)
    finally show ?thesis .
  qed
  have loop1: "JSONObject_loop d (Suc (Suc n)) tail1
                 = Inr ([(k1, JString ts), (k2, JString fr)], [])" for d n
  proof -
    note JSONObject_loop_item [OF k(1,2) assms(1,2), of d "Suc n" "44 # 10 # 32 # 32 # 32 # 32 # tail2",
        folded tail1_def]
    also have "(case skip_ws (44 # 10 # 32 # 32 # 32 # 32 # tail2) of
                  [] \<Rightarrow> Inl JSONDecodeError
                | nextchar # s5 \<Rightarrow>
                    if nextchar = 125 then Inr ([(k1, JString ts)], s5)
                    else if nextchar \<noteq> 44 then Inl JSONDecodeError
                    else (case JSONObject_loop d (Suc n) (skip_ws s5) of
                            Inl err \<Rightarrow> Inl err
                          | Inr (pairs, rest') \<Rightarrow> Inr ((k1, JString ts) # pairs, rest')))
               = Inr ([(k1, JString ts), (k2, JString fr)], [])"
      by (simp add: skip_ws_simps is_ws_def ws2 loop2 del: JSONObject_loop.simps)
    finally show ?thesis .
  qed
  define cs where "cs = 10 # 32 # 32 # 32 # 32 # tail1"
  obtain T where T: "tail1 = 34 # T"
    by (simp add: tail1_def encode_basestring_ascii_def)
  have ws1: "skip_ws cs = 34 # T"
    by (simp add: cs_def skip_ws_simps is_ws_def T)
  have len: "length cs = Suc (Suc (length T + 4))"
    by (simp add: cs_def T)
  have l1: "JSONObject_loop d (length cs) (34 # T) = Inr ([(k1, JString ts), (k2, JString fr)], [])" for d
    unfolding len using loop1 [of d "length T + 4"] unfolding T .
  have dict: "dict_of_pairs [] [(k1, JString ts), (k2, JString fr)] = [(k1, JString ts), (k2, JString fr)]"
    using k(5) by simp
  have obj: "scan_once (Suc d) (123 # cs) = Inr (JObject [(k1, JString ts), (k2, JString fr)], [])"
    by (simp add: ws1 l1 dict del: JSONObject_loop.simps dict_of_pairs.simps)
  have "json_loads (Suc d) (123 # cs) = Inr (JObject [(k1, JString ts), (k2, JString fr)])"
    unfolding json_loads_def
    by (simp add: obj skip_ws_simps is_ws_def del: scan_once.simps)
  then show ?thesis
    unfolding enc cs_def [symmetric] by (simp add: cache_data_def k1_def k2_def)
qed


text \<open>
  What \<open>json.dump\<close> writes is ASCII text without a carriage return, which the strict
  decoder and the universal newlines give back as it is.
\<close>

lemma utf8_decode_ascii: "\<forall>b\<in>set bs. b < 128 \<Longrightarrow> utf8_decode bs = Some bs"
  by (induction bs) simp_all

lemma universal_newlines_plain: "13 \<notin> set s \<Longrightarrow> universal_newlines s = s"
  by (induction s) simp_all

lemma read_text_ascii: "\<forall>b\<in>set bs. b < 128 \<and> b \<noteq> 13 \<Longrightarrow> read_text bs = Inr bs"
proof -
  assume a: "\<forall>b\<in>set bs. b < 128 \<and> b \<noteq> 13"
  then have "utf8_decode bs = Some bs" by (simp add: utf8_decode_ascii)
  moreover have "universal_newlines bs = bs" using a by (auto intro: universal_newlines_plain)
  ultimately show ?thesis by (simp add: read_text_def)
qed

lemma hexdigit_printable: "d < 16 \<Longrightarrow> 32 \<le> hexdigit d \<and> hexdigit d \<le> 126"
  by (simp add: hexdigit_def)

lemma hex4_printable: "c \<in> set (hex4 n) \<Longrightarrow> 32 \<le> c \<and> c \<le> 126"
  using hexdigit_printable [of "n div 4096 mod 16"] hexdigit_printable [of "n div 256 mod 16"]
    hexdigit_printable [of "n div 16 mod 16"] hexdigit_printable [of "n mod 16"]
  by (auto simp: hex4_def)

lemma escape_ascii_printable: "x \<in> set (escape_ascii c) \<Longrightarrow> 32 \<le> x \<and> x \<le> 126"
  by (auto simp: escape_ascii_def escape_u_def dest: hex4_printable split: if_splits)

lemma encode_basestring_printable:
  "x \<in> set (encode_basestring_ascii s) \<Longrightarrow> 32 \<le> x \<and> x \<le> 126"
  by (auto simp: encode_basestring_ascii_def dest: escape_ascii_printable)

lemma newline_indent_ascii: "x \<in> set (newline_indent n) \<Longrightarrow> x = 10 \<or> x = 32"
  by (auto simp: newline_indent_def)

lemma cache_data_ascii:
  "x \<in> set (iterencode 0 (cache_data ts fr)) \<Longrightarrow> x < 128 \<and> x \<noteq> 13"
  by (auto simp: cache_data_def dest!: encode_basestring_printable newline_indent_ascii)

lemma load_after_save:
  assumes "\<forall>x\<in>set (iterencode 0 report_data). x < 128 \<and> x \<noteq> 13"
  shows "load_cached_report e (save_cache e' report_data s)
           = json_loads (Suc (deeper_levels e)) (iterencode 0 report_data)"
  using read_text_ascii [OF assms] by (simp add: load_cached_report_def save_cache_def)

lemma newline_indent_simps:
  "newline_indent 0 = [10]"
  "newline_indent (Suc 0) = [10, 32, 32, 32, 32]"
  by (simp_all add: newline_indent_def eval_nat_numeral)

lemmas json_defs = json_loads_def read_text_def is_continuation_def skip_ws_def is_ws_def scan_escape_def
  decode_uXXXX_def hexval_def backslash_def append_char_def scan_constant_def match_number_def
  match_integer_def match_frac_def match_exp_def parse_int_def int_max_str_digits_def nat_of_digits_def
  is_digit_def
  encode_basestring_ascii_def escape_ascii_def escape_u_def hex4_def hexdigit_def newline_indent_simps
  load_cached_report_def save_cache_def getitem_def cache_data_def

lemma sample_good:
  "code_points (lit ''2024-05-01T10:00:00'')" "no_surrogate_pair (lit ''2024-05-01T10:00:00'')"
  "code_points sample_report" "no_surrogate_pair sample_report"
  by (simp_all add: sample_report_def lit_def code_points_def is_high_surrogate_def is_low_surrogate_def)

text \<open>
  C6 (as amended). For every report dictionary with a string timestamp and a string
  full_report in which no high surrogate is directly followed by a low surrogate, calling
  \<open>save_cache\<close> and then \<open>load_cached_report\<close> returns a dictionary whose
  \<open>timestamp\<close> and \<open>full_report\<close> fields are identical to those saved.
\<close>

theorem save_then_load_report:
  assumes "code_points timestamp" "no_surrogate_pair timestamp"
    and "code_points full_report" "no_surrogate_pair full_report"
  shows "load_cached_report e (save_cache e (cache_data timestamp full_report) s)
           = Inr (cache_data timestamp full_report)
         \<and> getitem (cache_data timestamp full_report) (lit ''timestamp'') = Inr (JString timestamp)
         \<and> getitem (cache_data timestamp full_report) (lit ''full_report'') = Inr (JString full_report)"
proof -
  have "load_cached_report e (save_cache e (cache_data timestamp full_report) s)
          = json_loads (Suc (deeper_levels e)) (iterencode 0 (cache_data timestamp full_report))"
    by (rule load_after_save) (auto dest: cache_data_ascii)
  then show ?thesis
    using json_loads_cache_data [OF assms, of "deeper_levels e"]
    by (simp add: getitem_def cache_data_def lit_def)
qed

theorem save_then_load_report_witness:
  "load_cached_report (fixed_env 0 (NavigableString []))
       (save_cache (fixed_env 0 (NavigableString []))
          (cache_data (lit ''2024-05-01T10:00:00'') sample_report) no_cache)
     = Inr (cache_data (lit ''2024-05-01T10:00:00'') sample_report)
   \<and> getitem (cache_data (lit ''2024-05-01T10:00:00'') sample_report) (lit ''full_report'')
       = Inr (JString sample_report)"
  using save_then_load_report [OF sample_good, of "fixed_env 0 (NavigableString [])" no_cache]
  by simp

text \<open>
  C6 as stated fails: a full_report made of the two characters U+D83D and U+DE00 is
  written as two escapes and loaded back as the single character U+1F600.
\<close>

theorem surrogate_pair_not_restored:
  "load_cached_report (fixed_env 0 (NavigableString []))
       (save_cache (fixed_env 0 (NavigableString []))
          (cache_data (lit ''2024-05-01T10:00:00'') [55357, 56832]) no_cache)
     = Inr (cache_data (lit ''2024-05-01T10:00:00'') [128512])
   \<and> getitem (cache_data (lit ''2024-05-01T10:00:00'') [128512]) (lit ''full_report'')
       = Inr (JString [128512])"
  by (simp add: json_defs lit_def fixed_env_def)




























text \<open>
  The missing field shows later: a run that finds such a file fresh fails with
  \<open>KeyError\<close> when it reads \<open>cached_data['full_report']\<close>.
\<close>

lemma fresh_cache_without_report_raises:
  "fst (generate_daily_report (fixed_env 0 (NavigableString []))
          (cached_at 0 (lit ''{\"timestamp\": \"2024-05-01T10:00:00\"}'')))
     = Inl KeyError"
proof -
  have "load_cached_report (fixed_env 0 (NavigableString []))
            (cached_at 0 (lit ''{\"timestamp\": \"2024-05-01T10:00:00\"}'')
               \<lparr>clock_reads := 1,
                  console := [ConsolePrint (Str (128194 # lit '' Loading report from cache...''))
                                (Some (lit ''bold blue''))]\<rparr>)
          = Inr (JObject [(lit ''timestamp'', JString (lit ''2024-05-01T10:00:00''))])"
    by (simp add: json_defs lit_def cached_at_def fixed_env_def)
  moreover have "should_refresh_cache (fixed_env 0 (NavigableString []))
                   (cached_at 0 (lit ''{\"timestamp\": \"2024-05-01T10:00:00\"}''))
                   = (Inr False, cached_at 0 (lit ''{\"timestamp\": \"2024-05-01T10:00:00\"}'')
                                   \<lparr>clock_reads := 1\<rparr>)"
    by (simp add: time_defs cached_at_def fixed_env_def)
  ultimately show ?thesis
    by (simp add: generate_daily_report_def console_print_def getitem_def lit_def Let_def
          cached_at_def)
qed

end
